theory Spec2Isabelle
  imports Main "HOL-Library.Sublist"
begin

section \<open>Paths and the file system\<close>

text \<open>
  The commands of \<^verbatim>\<open>cli/commands/{update,sync,install}/index.js\<close> only move files
  around, so the state of the model is the file system.  A path is the list of its
  segments (absolute and normalised, \<^verbatim>\<open>path.join(cwd, '.claude', 'CLAUDE.md')\<close> is
  \<open>cwd @ [''.claude'', ''CLAUDE.md'']\<close>); a file system is an association list from
  paths to nodes, read with \<open>map_of\<close>, so the first entry of a path is the live one.
  File contents are the strings that \<^verbatim>\<open>readFileSync(p, 'utf8')\<close> returns and
  \<^verbatim>\<open>writeFileSync\<close> takes; symbolic links, permissions and disk space are outside
  the model.
\<close>

type_synonym path = "string list"

datatype node = File string | Dir

type_synonym fs = "(path \<times> node) list"

datatype error =
    ENOENT | EISDIR | ENOTDIR | EEXIST
  | CopySamePath | CopyIntoSelf | CopyKindMismatch
  | TypeError | YAMLException

definition lookup :: "fs \<Rightarrow> path \<Rightarrow> node option" where
  "lookup fs p = map_of fs p"

text \<open>\<^verbatim>\<open>fs.existsSync(p)\<close>.\<close>

definition existsSync :: "fs \<Rightarrow> path \<Rightarrow> bool" where
  "existsSync fs p = (case lookup fs p of None \<Rightarrow> False | Some n \<Rightarrow> True)"

text \<open>\<^verbatim>\<open>fs.statSync(p).isDirectory()\<close>, for a path that exists.\<close>

definition isDirectory :: "fs \<Rightarrow> path \<Rightarrow> bool" where
  "isDirectory fs p = (case lookup fs p of Some Dir \<Rightarrow> True | _ \<Rightarrow> False)"

text \<open>\<^verbatim>\<open>fs.readFileSync(p, 'utf8')\<close>: raises on a missing path and on a directory.\<close>

definition readFileSync :: "fs \<Rightarrow> path \<Rightarrow> error + string" where
  "readFileSync fs p =
     (case lookup fs p of
        None \<Rightarrow> Inl ENOENT
      | Some Dir \<Rightarrow> Inl EISDIR
      | Some (File c) \<Rightarrow> Inr c)"

text \<open>
  \<^verbatim>\<open>fs.writeFileSync(p, c)\<close>: creates or replaces the file; raises when \<open>p\<close> is a
  directory or when its parent is not a directory.
\<close>

definition writeFileSync :: "fs \<Rightarrow> path \<Rightarrow> string \<Rightarrow> error + fs" where
  "writeFileSync fs p c =
     (case lookup fs p of
        Some Dir \<Rightarrow> Inl EISDIR
      | _ \<Rightarrow>
        (case lookup fs (butlast p) of
           None \<Rightarrow> Inl ENOENT
         | Some (File x) \<Rightarrow> Inl ENOTDIR
         | Some Dir \<Rightarrow> Inr ((p, File c) # fs)))"

text \<open>\<^verbatim>\<open>fs.remove(p)\<close> of fs-extra: deletes \<open>p\<close> and everything below it; a missing
  path is not an error.\<close>

definition remove :: "fs \<Rightarrow> path \<Rightarrow> fs" where
  "remove fs p = filter (\<lambda>e. \<not> prefix p (fst e)) fs"

text \<open>
  \<^verbatim>\<open>fs.ensureDir(p)\<close> (\<^verbatim>\<open>mkdir -p\<close>): every prefix of \<open>p\<close> that is missing becomes
  a directory; a prefix that is a regular file makes it raise.
\<close>

definition ensureDir :: "fs \<Rightarrow> path \<Rightarrow> error + fs" where
  "ensureDir fs p =
     (if list_ex (\<lambda>q. case lookup fs q of Some (File x) \<Rightarrow> True | _ \<Rightarrow> False) (prefixes p)
      then Inl (case lookup fs p of Some (File x) \<Rightarrow> EEXIST | _ \<Rightarrow> ENOTDIR)
      else Inr (map (\<lambda>q. (q, Dir)) (filter (\<lambda>q. lookup fs q = None) (prefixes p)) @ fs))"

text \<open>
  \<^verbatim>\<open>fs.copy(src, dest, {filter, overwrite})\<close> of fs-extra, on a well-formed tree.
  The library checks the two end points first (a missing source, source and
  destination the same, a directory over a file or the reverse, a directory copied
  into itself), then asks the filter about the source, creates the parent of the
  destination, and walks the source top-down: an entry is visited when the filter
  accepts it and every directory above it (\<open>included\<close>); a visited entry whose
  destination has the other kind raises; a visited file replaces an existing file only
  when \<open>overwrite\<close> is set (\<^verbatim>\<open>errorOnExist\<close> is never set by the callers).
  The model reads the whole source before it writes, where the library reads and
  writes entry by entry; the two agree when neither tree lies inside the other.  When
  the library raises half-way, what it has written by then stays on disk; a run that
  ends in an exception keeps no tree in the model (\<open>Threw\<close> below).
\<close>

definition src_entries :: "fs \<Rightarrow> path \<Rightarrow> (path \<times> node) list" where
  "src_entries fs src =
     map (\<lambda>e. (drop (length src) (fst e), snd e))
       (filter (\<lambda>e. prefix src (fst e) \<and> lookup fs (fst e) = Some (snd e)) fs)"

definition included :: "(path \<Rightarrow> bool) \<Rightarrow> path \<Rightarrow> path \<Rightarrow> bool" where
  "included flt src r = list_all (\<lambda>r'. flt (src @ r')) (prefixes r)"

fun kind_clash :: "node \<Rightarrow> node option \<Rightarrow> bool" where
  "kind_clash Dir (Some (File x)) = True"
| "kind_clash (File c) (Some Dir) = True"
| "kind_clash n d = False"

definition copy :: "fs \<Rightarrow> path \<Rightarrow> path \<Rightarrow> (path \<Rightarrow> bool) \<Rightarrow> bool \<Rightarrow> error + fs" where
  "copy fs src dest flt overwrite =
     (case lookup fs src of
        None \<Rightarrow> Inl ENOENT
      | Some s \<Rightarrow>
        if src = dest then Inl CopySamePath
        else if kind_clash s (lookup fs dest) then Inl CopyKindMismatch
        else if s = Dir \<and> prefix src dest then Inl CopyIntoSelf
        else if flt src then
          (case ensureDir fs (butlast dest) of
             Inl e \<Rightarrow> Inl e
           | Inr fs1 \<Rightarrow>
             let items = filter (\<lambda>e. included flt src (fst e)) (src_entries fs src) in
             if list_ex (\<lambda>e. kind_clash (snd e) (lookup fs (dest @ fst e))) items
             then Inl CopyKindMismatch
             else Inr (map (\<lambda>e. (dest @ fst e, snd e))
                        (filter (\<lambda>e. overwrite \<or> snd e = Dir \<or> lookup fs (dest @ fst e) = None)
                           items) @ fs1))
        else Inr fs)"

section \<open>JavaScript values\<close>

text \<open>
  What \<^verbatim>\<open>JSON.parse\<close> and \<^verbatim>\<open>yaml.load\<close> return, as far as the commands look:
  property access and truthiness.  The commands never compute with a number, so a
  number is kept as an integer (\<^verbatim>\<open>0\<close> is the falsy one).
\<close>

datatype jsval =
    JUndefined | JNull | JBool bool | JNum int | JStr string
  | JArr "jsval list" | JObj "(string \<times> jsval) list"

text \<open>\<^verbatim>\<open>v.k\<close>: a TypeError (\<open>None\<close>) on \<^verbatim>\<open>undefined\<close> and \<^verbatim>\<open>null\<close>, the property
  or \<^verbatim>\<open>undefined\<close> otherwise.\<close>

fun get_prop :: "jsval \<Rightarrow> string \<Rightarrow> jsval option" where
  "get_prop JUndefined k = None"
| "get_prop JNull k = None"
| "get_prop (JObj kvs) k = (case map_of kvs k of None \<Rightarrow> Some JUndefined | Some v \<Rightarrow> Some v)"
| "get_prop v k = Some JUndefined"

fun truthy :: "jsval \<Rightarrow> bool" where
  "truthy JUndefined = False"
| "truthy JNull = False"
| "truthy (JBool b) = b"
| "truthy (JNum n) = (n \<noteq> 0)"
| "truthy (JStr s) = (s \<noteq> [])"
| "truthy (JArr xs) = True"
| "truthy (JObj kvs) = True"

text \<open>\<^verbatim>\<open>a || b\<close>.\<close>

definition js_or :: "jsval \<Rightarrow> jsval \<Rightarrow> jsval" where
  "js_or a b = (if truthy a then a else b)"

section \<open>The version reader\<close>

text \<open>
  \<^verbatim>\<open>JSON.parse\<close> is a parameter of the model (\<open>None\<close> is its SyntaxError).
  \<open>dirname\<close> is the \<^verbatim>\<open>__dirname\<close> of the module that runs.
\<close>

text \<open>\<^verbatim>\<open>path.resolve(__dirname, '..', '..', '..')\<close>.\<close>

definition getPackageRoot :: "path \<Rightarrow> path" where
  "getPackageRoot dirname = butlast (butlast (butlast dirname))"

text \<open>\<^verbatim>\<open>getPackageVersion\<close> of the update and of the install command (the two
  functions are the same text).\<close>

definition getPackageVersion :: "(string \<Rightarrow> jsval option) \<Rightarrow> path \<Rightarrow> fs \<Rightarrow> jsval" where
  "getPackageVersion json_parse dirname fs =
     (case readFileSync fs (getPackageRoot dirname @ [''package.json'']) of
        Inl e \<Rightarrow> JStr ''0.0.0''
      | Inr text \<Rightarrow>
        (case json_parse text of
           None \<Rightarrow> JStr ''0.0.0''
         | Some pkg \<Rightarrow>
           (case get_prop pkg ''version'' of
              None \<Rightarrow> JStr ''0.0.0''
            | Some v \<Rightarrow> js_or v (JStr ''0.0.0''))))"

text \<open>The CLI entry point, \<^verbatim>\<open>cli/index.js\<close>: \<^verbatim>\<open>packageVersion\<close> starts as
  \<^verbatim>\<open>'0.0.0'\<close> and is assigned \<^verbatim>\<open>packageJson.version\<close> inside the \<^verbatim>\<open>try\<close>.\<close>

definition packageVersion :: "(string \<Rightarrow> jsval option) \<Rightarrow> path \<Rightarrow> fs \<Rightarrow> jsval" where
  "packageVersion json_parse dirname fs =
     (case readFileSync fs (butlast dirname @ [''package.json'']) of
        Inl e \<Rightarrow> JStr ''0.0.0''
      | Inr text \<Rightarrow>
        (case json_parse text of
           None \<Rightarrow> JStr ''0.0.0''
         | Some packageJson \<Rightarrow>
           (case get_prop packageJson ''version'' of
              None \<Rightarrow> JStr ''0.0.0''
            | Some v \<Rightarrow> v)))"

section \<open>The environment of a run\<close>

text \<open>
  What a run reads besides the file system: the directory of the module, the working
  directory, the two parsers and the serialiser of the libraries (\<open>None\<close> is the
  exception they raise), the clock, and what \<^verbatim>\<open>npm install --production\<close> does to
  the tree (its failure is caught and only logged, so only its effect is kept).
\<close>

record env =
  dirname :: path
  cwd :: path
  json_parse :: "string \<Rightarrow> jsval option"
  yaml_load :: "string \<Rightarrow> jsval option"
  yaml_dump :: "jsval \<Rightarrow> string option"
  now_installed :: string
  now_updated :: string
  npm_install :: "path \<Rightarrow> fs \<Rightarrow> fs"

record options =
  force :: bool
  skipDeps :: bool

text \<open>
  How a command ends: it runs to its last line, it calls \<^verbatim>\<open>process.exit(n)\<close> (the
  tree is then the one of that moment), or an exception leaves it.  \<^verbatim>\<open>run\<close> of
  \<^verbatim>\<open>cli/index.js\<close> catches the exception, prints it and calls \<^verbatim>\<open>process.exit(1)\<close>.
\<close>

datatype result = Completed fs | Exited nat fs | Threw error

fun exit_status :: "result \<Rightarrow> nat" where
  "exit_status (Completed fs) = 0"
| "exit_status (Exited n fs) = n"
| "exit_status (Threw e) = 1"

definition and_then :: "error + 'a \<Rightarrow> ('a \<Rightarrow> error + 'b) \<Rightarrow> error + 'b" where
  "and_then m f = (case m of Inl e \<Rightarrow> Inl e | Inr x \<Rightarrow> f x)"

text \<open>\<^verbatim>\<open>path.relative(from, to)\<close> on normalised absolute paths.\<close>

fun path_relative :: "path \<Rightarrow> path \<Rightarrow> path" where
  "path_relative [] bs = bs"
| "path_relative (a # as) [] = replicate (length (a # as)) ''..''"
| "path_relative (a # as) (b # bs) =
     (if a = b then path_relative as bs else replicate (length (a # as)) ''..'' @ (b # bs))"

text \<open>The string of an absolute path, as \<^verbatim>\<open>path.resolve\<close> returns it.\<close>

definition path_string :: "path \<Rightarrow> string" where
  "path_string p = (if p = [] then ''/'' else concat (map (\<lambda>s. CHR ''/'' # s) p))"

section \<open>The update command\<close>

text \<open>
  \<^verbatim>\<open>updateAction\<close> of \<^verbatim>\<open>cli/commands/update/index.js\<close>, step by step as the source
  numbers them; \<^verbatim>\<open>console.log\<close> is left out.
\<close>

definition LOCAL_CONFIGS :: "string list" where
  "LOCAL_CONFIGS = [''core-config.yaml'', ''local-config.yaml'', ''install-manifest.yaml'']"

definition COPY_EXCLUDE :: "string list" where
  "COPY_EXCLUDE = [''node_modules'', ''.DS_Store'', ''claude-config'', ''package-lock.json'']"

text \<open>Step 2: the version of the manifest on disk; the \<^verbatim>\<open>try\<close> swallows every
  exception.\<close>

definition read_current_version :: "env \<Rightarrow> fs \<Rightarrow> path \<Rightarrow> jsval" where
  "read_current_version env fs manifestPath =
     (if existsSync fs manifestPath then
        (case readFileSync fs manifestPath of
           Inl e \<Rightarrow> JStr ''unknown''
         | Inr text \<Rightarrow>
           (case yaml_load env text of
              None \<Rightarrow> JStr ''unknown''
            | Some manifest \<Rightarrow>
              (case get_prop manifest ''version'' of
                 None \<Rightarrow> JStr ''unknown''
               | Some v \<Rightarrow> js_or v (JStr ''unknown''))))
      else JStr ''unknown'')"

text \<open>Step 3: the loop that fills \<^verbatim>\<open>backups\<close>, keyed by file name.\<close>

fun backup_configs :: "fs \<Rightarrow> path \<Rightarrow> string list \<Rightarrow> error + (string \<times> string) list" where
  "backup_configs fs dir [] = Inr []"
| "backup_configs fs dir (configFile # rest) =
     (if existsSync fs (dir @ [configFile]) then
        and_then (readFileSync fs (dir @ [configFile])) (\<lambda>content.
        and_then (backup_configs fs dir rest) (\<lambda>backups.
        Inr ((configFile, content) # backups)))
      else backup_configs fs dir rest)"

text \<open>\<^verbatim>\<open>let b = null; if (fs.existsSync(p)) b = fs.readFileSync(p, 'utf8')\<close>.\<close>

definition read_backup :: "fs \<Rightarrow> path \<Rightarrow> error + string option" where
  "read_backup fs p =
     (if existsSync fs p then and_then (readFileSync fs p) (\<lambda>content. Inr (Some content))
      else Inr None)"

text \<open>Truthiness of such a backup: \<^verbatim>\<open>null\<close> and the empty string are falsy.\<close>

fun truthy_backup :: "string option \<Rightarrow> bool" where
  "truthy_backup None = False"
| "truthy_backup (Some s) = (s \<noteq> [])"

text \<open>Step 4: the filter of the framework copy.\<close>

definition update_filter :: "path \<Rightarrow> bool \<Rightarrow> path \<Rightarrow> bool" where
  "update_filter packageRoot frc src =
     (let relative = path_relative packageRoot src in
      if relative = [] then True
      else if hd relative \<in> set COPY_EXCLUDE then False
      else if \<not> frc \<and> (case relative of [x] \<Rightarrow> x \<in> set LOCAL_CONFIGS | _ \<Rightarrow> False) then False
      else True)"

text \<open>Step 5: one of the three blocks that replace \<^verbatim>\<open>commands\<close>, \<^verbatim>\<open>rules\<close> and
  \<^verbatim>\<open>hooks\<close>: \<^verbatim>\<open>fs.remove\<close> of the destination, then \<^verbatim>\<open>fs.copy\<close>.\<close>

definition replace_catalog :: "fs \<Rightarrow> path \<Rightarrow> path \<Rightarrow> error + fs" where
  "replace_catalog fs src dst =
     (if existsSync fs src then copy (remove fs dst) src dst (\<lambda>p. True) True else Inr fs)"

definition update_settings :: "fs \<Rightarrow> path \<Rightarrow> path \<Rightarrow> error + fs" where
  "update_settings fs settingsSrc dst =
     (if existsSync fs settingsSrc then copy fs settingsSrc dst (\<lambda>p. True) True else Inr fs)"

definition update_claude_md ::
    "fs \<Rightarrow> bool \<Rightarrow> string option \<Rightarrow> path \<Rightarrow> path \<Rightarrow> error + fs" where
  "update_claude_md fs frc claudeMdBackup claudeMdSrc claudeMdPath =
     (if existsSync fs claudeMdSrc then
        and_then (readFileSync fs claudeMdSrc) (\<lambda>templateContent.
        if \<not> truthy_backup claudeMdBackup \<or> claudeMdBackup = Some templateContent \<or> frc
        then copy fs claudeMdSrc claudeMdPath (\<lambda>p. True) True
        else Inr fs)
      else Inr fs)"

definition update_claude :: "fs \<Rightarrow> bool \<Rightarrow> string option \<Rightarrow> path \<Rightarrow> path \<Rightarrow> error + fs" where
  "update_claude fs frc claudeMdBackup claudeConfigSrc claudeTarget =
     (if existsSync fs claudeConfigSrc then
        and_then (replace_catalog fs (claudeConfigSrc @ [''commands'']) (claudeTarget @ [''commands''])) (\<lambda>fs.
        and_then (replace_catalog fs (claudeConfigSrc @ [''rules'']) (claudeTarget @ [''rules''])) (\<lambda>fs.
        and_then (replace_catalog fs (claudeConfigSrc @ [''hooks'']) (claudeTarget @ [''hooks''])) (\<lambda>fs.
        and_then (update_settings fs (claudeConfigSrc @ [''settings.json'']) (claudeTarget @ [''settings.json''])) (\<lambda>fs.
        update_claude_md fs frc claudeMdBackup (claudeConfigSrc @ [''CLAUDE.md''])
          (claudeTarget @ [''CLAUDE.md''])))))
      else Inr fs)"

text \<open>Step 6: every entry of \<^verbatim>\<open>backups\<close> is written back; then
  \<^verbatim>\<open>settings.local.json\<close>, when its backup is truthy.\<close>

fun restore_configs :: "fs \<Rightarrow> path \<Rightarrow> (string \<times> string) list \<Rightarrow> error + fs" where
  "restore_configs fs dir [] = Inr fs"
| "restore_configs fs dir ((configFile, content) # rest) =
     and_then (writeFileSync fs (dir @ [configFile]) content) (\<lambda>fs. restore_configs fs dir rest)"

definition restore_settings_local :: "fs \<Rightarrow> path \<Rightarrow> string option \<Rightarrow> error + fs" where
  "restore_settings_local fs settingsLocalPath settingsLocalBackup =
     (case settingsLocalBackup of
        None \<Rightarrow> Inr fs
      | Some content \<Rightarrow> if content = [] then Inr fs else writeFileSync fs settingsLocalPath content)"

text \<open>Step 7: \<^verbatim>\<open>installed_at\<close> of the new manifest.  The backup of the old manifest is
  parsed again, outside any \<^verbatim>\<open>try\<close>.\<close>

definition carried_installed_at :: "env \<Rightarrow> (string \<times> string) list \<Rightarrow> error + jsval" where
  "carried_installed_at env backups =
     (case map_of backups ''install-manifest.yaml'' of
        None \<Rightarrow> Inr (JStr (now_installed env))
      | Some text \<Rightarrow>
        if text = [] then Inr (JStr (now_installed env))
        else
          (case yaml_load env text of
             None \<Rightarrow> Inl YAMLException
           | Some old \<Rightarrow>
             (case get_prop old ''installed_at'' of
                None \<Rightarrow> Inl TypeError
              | Some v \<Rightarrow> Inr v)))"

definition update_manifest :: "jsval \<Rightarrow> string \<Rightarrow> jsval \<Rightarrow> jsval \<Rightarrow> path \<Rightarrow> jsval" where
  "update_manifest installed_at updated_at version currentVersion packageRoot =
     JObj [(''installed_at'', installed_at),
           (''updated_at'', JStr updated_at),
           (''version'', version),
           (''previous_version'', currentVersion),
           (''source'', JStr (path_string packageRoot))]"

definition write_manifest :: "env \<Rightarrow> fs \<Rightarrow> path \<Rightarrow> jsval \<Rightarrow> error + fs" where
  "write_manifest env fs manifestPath manifest =
     (case yaml_dump env manifest of
        None \<Rightarrow> Inl YAMLException
      | Some text \<Rightarrow> writeFileSync fs manifestPath text)"

definition updateAction :: "env \<Rightarrow> options \<Rightarrow> fs \<Rightarrow> result" where
  "updateAction env opts fs0 =
     (let packageRoot = getPackageRoot (dirname env);
          version = getPackageVersion (json_parse env) (dirname env) fs0;
          targetAiosCore = cwd env @ [''.aios-core''];
          manifestPath = targetAiosCore @ [''install-manifest.yaml''];
          claudeMdPath = cwd env @ [''.claude'', ''CLAUDE.md''];
          settingsLocalPath = cwd env @ [''.claude'', ''settings.local.json''];
          claudeConfigSrc = packageRoot @ [''claude-config''];
          claudeTarget = cwd env @ [''.claude'']
      in
      if existsSync fs0 targetAiosCore then
        (let currentVersion = read_current_version env fs0 manifestPath in
         case
           and_then (backup_configs fs0 targetAiosCore LOCAL_CONFIGS) (\<lambda>backups.
           and_then (read_backup fs0 claudeMdPath) (\<lambda>claudeMdBackup.
           and_then (read_backup fs0 settingsLocalPath) (\<lambda>settingsLocalBackup.
           and_then (copy fs0 packageRoot targetAiosCore
                       (update_filter packageRoot (force opts)) True) (\<lambda>fs1.
           and_then (update_claude fs1 (force opts) claudeMdBackup claudeConfigSrc claudeTarget) (\<lambda>fs2.
           and_then (restore_configs fs2 targetAiosCore backups) (\<lambda>fs3.
           and_then (restore_settings_local fs3 settingsLocalPath settingsLocalBackup) (\<lambda>fs4.
           and_then (carried_installed_at env backups) (\<lambda>installed_at.
           write_manifest env fs4 manifestPath
             (update_manifest installed_at (now_updated env) version currentVersion packageRoot)))))))))
         of
           Inl e \<Rightarrow> Threw e
         | Inr fs5 \<Rightarrow> Completed fs5)
      else Exited 1 fs0)"

section \<open>The sync command\<close>

text \<open>\<^verbatim>\<open>syncAction\<close> of \<^verbatim>\<open>cli/commands/sync/index.js\<close>.\<close>

definition SYNC_ITEMS :: "string list" where
  "SYNC_ITEMS = [''commands'', ''rules'', ''hooks'', ''CLAUDE.md'', ''settings.json'']"

definition NEVER_SYNC :: "string list" where
  "NEVER_SYNC = [''settings.local.json'']"

text \<open>\<^verbatim>\<open>path.basename(p)\<close>; the root has the empty name.\<close>

definition path_basename :: "path \<Rightarrow> string" where
  "path_basename p = (if p = [] then [] else last p)"

definition sync_filter :: "path \<Rightarrow> bool" where
  "sync_filter srcPath =
     (let basename = path_basename srcPath in
      basename \<notin> set NEVER_SYNC \<and> basename \<noteq> ''.DS_Store'')"

text \<open>\<^verbatim>\<open>countItems(dir)\<close>: the number of files below \<open>dir\<close>; \<^verbatim>\<open>fs.readdir\<close> raises
  when \<open>dir\<close> is not a directory.\<close>

definition countItems :: "fs \<Rightarrow> path \<Rightarrow> error + nat" where
  "countItems fs dir =
     (case lookup fs dir of
        None \<Rightarrow> Inl ENOENT
      | Some (File x) \<Rightarrow> Inl ENOTDIR
      | Some Dir \<Rightarrow>
        Inr (length (remdups (map fst
          (filter (\<lambda>e. prefix dir (fst e) \<and> snd e \<noteq> Dir \<and> lookup fs (fst e) = Some (snd e)) fs)))))"

text \<open>Step 4, the loop over \<^verbatim>\<open>SYNC_ITEMS\<close> (the two counters only feed the log).\<close>

fun sync_items :: "fs \<Rightarrow> path \<Rightarrow> path \<Rightarrow> string list \<Rightarrow> error + fs" where
  "sync_items fs claudeDir claudeConfigDir [] = Inr fs"
| "sync_items fs claudeDir claudeConfigDir (item # rest) =
     (if \<not> existsSync fs (claudeDir @ [item]) then sync_items fs claudeDir claudeConfigDir rest
      else if isDirectory fs (claudeDir @ [item]) then
        and_then (copy (remove fs (claudeConfigDir @ [item])) (claudeDir @ [item])
                    (claudeConfigDir @ [item]) sync_filter True) (\<lambda>fs.
        and_then (countItems fs (claudeConfigDir @ [item])) (\<lambda>items.
        sync_items fs claudeDir claudeConfigDir rest))
      else
        and_then (copy fs (claudeDir @ [item]) (claudeConfigDir @ [item]) (\<lambda>p. True) True) (\<lambda>fs.
        sync_items fs claudeDir claudeConfigDir rest))"

text \<open>Step 5, the loop over \<^verbatim>\<open>NEVER_SYNC\<close>.\<close>

fun remove_never_sync :: "fs \<Rightarrow> path \<Rightarrow> string list \<Rightarrow> fs" where
  "remove_never_sync fs claudeConfigDir [] = fs"
| "remove_never_sync fs claudeConfigDir (item # rest) =
     (if existsSync fs (claudeConfigDir @ [item])
      then remove_never_sync (remove fs (claudeConfigDir @ [item])) claudeConfigDir rest
      else remove_never_sync fs claudeConfigDir rest)"

definition syncAction :: "env \<Rightarrow> fs \<Rightarrow> result" where
  "syncAction env fs0 =
     (let claudeDir = cwd env @ [''.claude''];
          claudeConfigDir = cwd env @ [''.aios-core'', ''claude-config'']
      in
      if \<not> existsSync fs0 claudeDir then Exited 1 fs0
      else if \<not> existsSync fs0 (cwd env @ [''.aios-core'']) then Exited 1 fs0
      else
        (case
           and_then (ensureDir fs0 claudeConfigDir) (\<lambda>fs1.
           and_then (sync_items fs1 claudeDir claudeConfigDir SYNC_ITEMS) (\<lambda>fs2.
           Inr (remove_never_sync fs2 claudeConfigDir NEVER_SYNC)))
         of
           Inl e \<Rightarrow> Threw e
         | Inr fs3 \<Rightarrow> Completed fs3))"

section \<open>The install command\<close>

text \<open>\<^verbatim>\<open>installAction\<close> of \<^verbatim>\<open>cli/commands/install/index.js\<close>; its
  \<^verbatim>\<open>getPackageRoot\<close>, \<^verbatim>\<open>getPackageVersion\<close> and \<^verbatim>\<open>COPY_EXCLUDE\<close> are the ones of
  the update command, word for word.\<close>

definition install_filter :: "path \<Rightarrow> path \<Rightarrow> bool" where
  "install_filter packageRoot src =
     (let relative = path_relative packageRoot src in
      if relative = [] then True else hd relative \<notin> set COPY_EXCLUDE)"

text \<open>Step 4: the three cases of the \<^verbatim>\<open>.claude\<close> copy.\<close>

definition install_claude :: "fs \<Rightarrow> bool \<Rightarrow> path \<Rightarrow> path \<Rightarrow> error + fs" where
  "install_claude fs frc claudeConfigSrc claudeTarget =
     (if existsSync fs claudeConfigSrc then
        (if \<not> existsSync fs claudeTarget then copy fs claudeConfigSrc claudeTarget (\<lambda>p. True) True
         else if frc then copy fs claudeConfigSrc claudeTarget (\<lambda>p. True) True
         else copy fs claudeConfigSrc claudeTarget (\<lambda>p. True) False)
      else Inr fs)"

definition install_manifest :: "string \<Rightarrow> jsval \<Rightarrow> path \<Rightarrow> bool \<Rightarrow> bool \<Rightarrow> jsval" where
  "install_manifest installed_at version packageRoot frc skip =
     JObj [(''installed_at'', JStr installed_at),
           (''version'', version),
           (''source'', JStr (path_string packageRoot)),
           (''force'', JBool frc),
           (''skip_deps'', JBool skip)]"

definition installAction :: "env \<Rightarrow> options \<Rightarrow> fs \<Rightarrow> result" where
  "installAction env opts fs0 =
     (let packageRoot = getPackageRoot (dirname env);
          version = getPackageVersion (json_parse env) (dirname env) fs0;
          targetAiosCore = cwd env @ [''.aios-core''];
          claudeConfigSrc = packageRoot @ [''claude-config''];
          claudeTarget = cwd env @ [''.claude''];
          manifestPath = targetAiosCore @ [''install-manifest.yaml'']
      in
      if existsSync fs0 targetAiosCore \<and> \<not> force opts then Exited 1 fs0
      else if cwd env = packageRoot \<or> cwd env = butlast packageRoot then Exited 1 fs0
      else
        (case
           and_then (copy fs0 packageRoot targetAiosCore (install_filter packageRoot) (force opts)) (\<lambda>fs1.
           and_then (install_claude fs1 (force opts) claudeConfigSrc claudeTarget) (\<lambda>fs2.
           write_manifest env
             (if \<not> skipDeps opts then npm_install env targetAiosCore fs2 else fs2)
             manifestPath
             (install_manifest (now_installed env) version packageRoot (force opts) (skipDeps opts))))
         of
           Inl e \<Rightarrow> Threw e
         | Inr fs3 \<Rightarrow> Completed fs3))"

section \<open>Observing the outcome of a run\<close>

fun completed_fs :: "result \<Rightarrow> fs option" where
  "completed_fs (Completed fs) = Some fs"
| "completed_fs (Exited n fs) = None"
| "completed_fs (Threw e) = None"

text \<open>What \<^verbatim>\<open>readFileSync\<close> gives at \<open>p\<close> once the command has run to its end.\<close>

definition read_after :: "result \<Rightarrow> path \<Rightarrow> (error + string) option" where
  "read_after r p = map_option (\<lambda>fs. readFileSync fs p) (completed_fs r)"

text \<open>The object that step 7 of \<^verbatim>\<open>update\<close> serialises (the local \<^verbatim>\<open>manifest\<close> of line
  192), as a function of the tree the run starts from.\<close>

definition built_manifest :: "env \<Rightarrow> fs \<Rightarrow> error + jsval" where
  "built_manifest env fs0 =
     and_then (backup_configs fs0 (cwd env @ [''.aios-core'']) LOCAL_CONFIGS) (\<lambda>backups.
     and_then (carried_installed_at env backups) (\<lambda>installed_at.
     Inr (update_manifest installed_at (now_updated env)
            (getPackageVersion (json_parse env) (dirname env) fs0)
            (read_current_version env fs0 (cwd env @ [''.aios-core'', ''install-manifest.yaml'']))
            (getPackageRoot (dirname env)))))"

text \<open>
  A well-formed tree: the root is a directory and every entry lies in a directory.
\<close>

definition wf_fs :: "fs \<Rightarrow> bool" where
  "wf_fs fs \<longleftrightarrow>
     lookup fs [] = Some Dir \<and>
     list_all (\<lambda>e. fst e = [] \<or> lookup fs (butlast (fst e)) = Some Dir) fs"

section \<open>A sample project\<close>

text \<open>
  The concrete inputs of the examples below: a package of version 1.2.0 under
  \<^verbatim>\<open>/pkg\<close>, and a project under \<^verbatim>\<open>/proj\<close> that version 1.0.0 was installed into.
  The parsers and the serialiser are given on the documents of the examples only, with
  the values and the text js-yaml and \<^verbatim>\<open>JSON.parse\<close> produce for them.
\<close>

definition sample_package_json :: string where
  \<open>sample_package_json = ''{"version": "1.2.0"}''\<close>

definition sample_json_parse :: "string \<Rightarrow> jsval option" where
  "sample_json_parse text =
     (if text = sample_package_json then Some (JObj [(''version'', JStr ''1.2.0'')])
      else if text = ''{}'' then Some (JObj [])
      else None)"

definition installed_manifest_text :: string where
  "installed_manifest_text =
     ''installed_at: '2026-01-01T00:00:00.000Z'\<newline>version: 1.0.0\<newline>source: /pkg\<newline>force: false\<newline>skip_deps: false\<newline>''"

definition installed_manifest :: jsval where
  "installed_manifest =
     JObj [(''installed_at'', JStr ''2026-01-01T00:00:00.000Z''),
           (''version'', JStr ''1.0.0''),
           (''source'', JStr ''/pkg''),
           (''force'', JBool False),
           (''skip_deps'', JBool False)]"

definition updated_manifest_text :: string where
  "updated_manifest_text =
     ''installed_at: '2026-01-01T00:00:00.000Z'\<newline>updated_at: '2026-02-01T00:00:00.000Z'\<newline>version: 1.2.0\<newline>previous_version: 1.0.0\<newline>source: /pkg\<newline>''"

definition updated_manifest :: jsval where
  "updated_manifest =
     JObj [(''installed_at'', JStr ''2026-01-01T00:00:00.000Z''),
           (''updated_at'', JStr ''2026-02-01T00:00:00.000Z''),
           (''version'', JStr ''1.2.0''),
           (''previous_version'', JStr ''1.0.0''),
           (''source'', JStr ''/pkg'')]"

definition updated_again_manifest_text :: string where
  "updated_again_manifest_text =
     ''installed_at: '2026-01-01T00:00:00.000Z'\<newline>updated_at: '2026-03-01T00:00:00.000Z'\<newline>version: 1.2.0\<newline>previous_version: 1.2.0\<newline>source: /pkg\<newline>''"

definition updated_again_manifest :: jsval where
  "updated_again_manifest =
     JObj [(''installed_at'', JStr ''2026-01-01T00:00:00.000Z''),
           (''updated_at'', JStr ''2026-03-01T00:00:00.000Z''),
           (''version'', JStr ''1.2.0''),
           (''previous_version'', JStr ''1.2.0''),
           (''source'', JStr ''/pkg'')]"

definition fresh_manifest_text :: string where
  "fresh_manifest_text =
     ''installed_at: '2026-02-01T00:00:00.000Z'\<newline>version: 1.2.0\<newline>source: /pkg\<newline>force: false\<newline>skip_deps: false\<newline>''"

definition fresh_manifest :: jsval where
  "fresh_manifest =
     JObj [(''installed_at'', JStr ''2026-02-01T00:00:00.000Z''),
           (''version'', JStr ''1.2.0''),
           (''source'', JStr ''/pkg''),
           (''force'', JBool False),
           (''skip_deps'', JBool False)]"

definition sample_documents :: "(string \<times> jsval) list" where
  "sample_documents =
     [(installed_manifest_text, installed_manifest),
      (updated_manifest_text, updated_manifest),
      (updated_again_manifest_text, updated_again_manifest),
      (fresh_manifest_text, fresh_manifest)]"

definition sample_yaml_load :: "string \<Rightarrow> jsval option" where
  "sample_yaml_load text = map_of sample_documents text"

definition sample_yaml_dump :: "jsval \<Rightarrow> string option" where
  "sample_yaml_dump v = map_of (map (\<lambda>d. (snd d, fst d)) sample_documents) v"

definition sample_env :: env where
  "sample_env =
     \<lparr>dirname = [''pkg'', ''cli'', ''commands'', ''update''],
      cwd = [''proj''],
      json_parse = sample_json_parse,
      yaml_load = sample_yaml_load,
      yaml_dump = sample_yaml_dump,
      now_installed = ''2026-02-01T00:00:00.000Z'',
      now_updated = ''2026-02-01T00:00:00.000Z'',
      npm_install = (\<lambda>dir fs. (dir @ [''node_modules''], Dir) # fs)\<rparr>"

definition sample_fs :: fs where
  "sample_fs =
     [([], Dir),
      ([''pkg''], Dir),
      ([''pkg'', ''package.json''], File sample_package_json),
      ([''pkg'', ''core-config.yaml''], File ''project: default''),
      ([''pkg'', ''claude-config''], Dir),
      ([''pkg'', ''claude-config'', ''commands''], Dir),
      ([''pkg'', ''claude-config'', ''commands'', ''new.md''], File ''new command''),
      ([''pkg'', ''claude-config'', ''CLAUDE.md''], File ''template''),
      ([''proj''], Dir),
      ([''proj'', ''.aios-core''], Dir),
      ([''proj'', ''.aios-core'', ''core-config.yaml''], File ''project: mine''),
      ([''proj'', ''.aios-core'', ''install-manifest.yaml''], File installed_manifest_text),
      ([''proj'', ''.claude''], Dir),
      ([''proj'', ''.claude'', ''commands''], Dir),
      ([''proj'', ''.claude'', ''commands'', ''old.md''], File ''old command''),
      ([''proj'', ''.claude'', ''CLAUDE.md''], File ''my notes'')]"

text \<open>The sample project with a manifest that is not YAML.\<close>

definition sample_fs_bad_manifest :: fs where
  "sample_fs_bad_manifest =
     ([''proj'', ''.aios-core'', ''install-manifest.yaml''], File ''{'') # sample_fs"

text \<open>The package next to a project that nothing was installed into; the same with a
  regular file where \<^verbatim>\<open>.claude\<close> would go.\<close>

definition sample_fs_fresh :: fs where
  "sample_fs_fresh =
     [([], Dir),
      ([''pkg''], Dir),
      ([''pkg'', ''package.json''], File sample_package_json),
      ([''pkg'', ''core-config.yaml''], File ''project: default''),
      ([''pkg'', ''claude-config''], Dir),
      ([''pkg'', ''claude-config'', ''commands''], Dir),
      ([''pkg'', ''claude-config'', ''commands'', ''new.md''], File ''new command''),
      ([''pkg'', ''claude-config'', ''CLAUDE.md''], File ''template''),
      ([''proj''], Dir)]"

definition sample_fs_claude_file :: fs where
  "sample_fs_claude_file = ([''proj'', ''.claude''], File ''notes'') # sample_fs_fresh"

definition sample_install_env :: env where
  "sample_install_env = sample_env\<lparr>dirname := [''pkg'', ''cli'', ''commands'', ''install'']\<rparr>"

text \<open>A project whose \<^verbatim>\<open>.aios-core/claude-config\<close> is a regular file.\<close>

definition sample_fs_config_file :: fs where
  "sample_fs_config_file = ([''proj'', ''.aios-core'', ''claude-config''], File ''x'') # sample_fs"

definition sample_fs_empty_package_json :: fs where
  "sample_fs_empty_package_json = ([''pkg'', ''package.json''], File ''{}'') # sample_fs"

text \<open>The environment of a second run of \<^verbatim>\<open>update\<close>, a month later.\<close>

definition sample_env_later :: env where
  "sample_env_later = sample_env\<lparr>now_updated := ''2026-03-01T00:00:00.000Z''\<rparr>"

text \<open>The sample project with an empty \<^verbatim>\<open>.claude/CLAUDE.md\<close>.\<close>

definition sample_fs_empty_claude_md :: fs where
  "sample_fs_empty_claude_md = ([''proj'', ''.claude'', ''CLAUDE.md''], File []) # sample_fs"

text \<open>The sample project as the hub that \<^verbatim>\<open>sync\<close> runs in: local settings at the top of
  \<^verbatim>\<open>.claude\<close> and inside \<^verbatim>\<open>commands\<close>, and a stale copy at the top of
  \<^verbatim>\<open>claude-config\<close>.\<close>

definition sample_fs_hub :: fs where
  "sample_fs_hub =
     [([''proj'', ''.claude'', ''settings.local.json''], File ''local''),
      ([''proj'', ''.claude'', ''commands'', ''settings.local.json''], File ''local''),
      ([''proj'', ''.aios-core'', ''claude-config''], Dir),
      ([''proj'', ''.aios-core'', ''claude-config'', ''settings.local.json''], File ''stale'')]
     @ sample_fs"

text \<open>The same hub with a local-settings file left below \<^verbatim>\<open>claude-config/hooks\<close> by an
  earlier state of the project; \<^verbatim>\<open>.claude\<close> has no \<^verbatim>\<open>hooks\<close> now.\<close>

definition sample_fs_stale_hooks :: fs where
  "sample_fs_stale_hooks =
     [([''proj'', ''.aios-core'', ''claude-config'', ''hooks''], Dir),
      ([''proj'', ''.aios-core'', ''claude-config'', ''hooks'', ''settings.local.json''], File ''stale'')]
     @ sample_fs_hub"

section \<open>Facts about the file-system operations\<close>

lemma lookup_writeFileSync:
  "writeFileSync fs p c = Inr fs' \<Longrightarrow> lookup fs' q = (if q = p then Some (File c) else lookup fs q)"
  by (auto simp: writeFileSync_def lookup_def split: option.splits node.splits)

lemma readFileSync_Inr: "readFileSync fs p = Inr c \<longleftrightarrow> lookup fs p = Some (File c)"
  by (auto simp: readFileSync_def split: option.splits node.splits)

lemma readFileSync_missing: "\<not> existsSync fs p \<Longrightarrow> readFileSync fs p = Inl ENOENT"
  by (simp add: existsSync_def readFileSync_def split: option.splits)

lemma existsSync_lookup: "existsSync fs p \<longleftrightarrow> lookup fs p \<noteq> None"
  by (simp add: existsSync_def split: option.splits)

lemma lookup_remove: "lookup (remove fs p) q = (if prefix p q then None else lookup fs q)"
  unfolding lookup_def remove_def
  by (induction fs) auto

lemma map_of_functional:
  "(\<And>k v. (k, v) \<in> set xs \<Longrightarrow> f k = Some v) \<Longrightarrow>
   map_of xs k = (if k \<in> fst ` set xs then f k else None)"
proof (induction xs)
  case Nil
  then show ?case by simp
next
  case (Cons x xs)
  have "f (fst x) = Some (snd x)"
    using Cons.prems [of "fst x" "snd x"] by simp
  moreover have "map_of xs k = (if k \<in> fst ` set xs then f k else None)"
    using Cons.IH Cons.prems by simp
  ultimately show ?case
    by (cases x) auto
qed

lemma lookup_ensureDir:
  "ensureDir fs p = Inr fs' \<Longrightarrow>
   lookup fs' q = (if prefix q p \<and> lookup fs q = None then Some Dir else lookup fs q)"
proof -
  assume a: "ensureDir fs p = Inr fs'"
  let ?new = "map (\<lambda>q. (q, Dir)) (filter (\<lambda>q. lookup fs q = None) (prefixes p))"
  from a have fs': "fs' = ?new @ fs"
    by (auto simp: ensureDir_def split: if_splits)
  have "map_of ?new q = (if q \<in> fst ` set ?new then (\<lambda>k. Some Dir) q else None)"
    by (rule map_of_functional) auto
  moreover have "q \<in> fst ` set ?new \<longleftrightarrow> prefix q p \<and> lookup fs q = None"
    by (auto simp: image_iff)
  ultimately show ?thesis
    unfolding fs' lookup_def by (auto simp: map_add_def lookup_def split: option.splits)
qed

lemma src_entries_iff:
  "(r, n) \<in> set (src_entries fs src) \<longleftrightarrow> lookup fs (src @ r) = Some n"
proof
  assume "(r, n) \<in> set (src_entries fs src)"
  then obtain q where "(q, n) \<in> set fs" "prefix src q" "lookup fs q = Some n" "r = drop (length src) q"
    by (auto simp: src_entries_def)
  then show "lookup fs (src @ r) = Some n"
    by (auto simp: prefix_def)
next
  assume a: "lookup fs (src @ r) = Some n"
  then have "(src @ r, n) \<in> set fs"
    by (simp add: lookup_def map_of_SomeD)
  with a show "(r, n) \<in> set (src_entries fs src)"
    by (force simp: src_entries_def image_iff)
qed

lemma copy_unfiltered: "copy fs src dest flt ow = Inr fs' \<Longrightarrow> \<not> flt src \<Longrightarrow> fs' = fs"
  by (auto simp: copy_def Let_def split: option.splits if_splits sum.splits)

lemma lookup_copy:
  assumes "copy fs src dest flt ow = Inr fs'" and "flt src"
  shows "lookup fs' q =
     (case (if prefix dest q then lookup fs (src @ drop (length dest) q) else None) of
        Some n \<Rightarrow>
          if included flt src (drop (length dest) q) \<and> (ow \<or> n = Dir \<or> lookup fs q = None)
          then Some n
          else if prefix q (butlast dest) \<and> lookup fs q = None then Some Dir else lookup fs q
      | None \<Rightarrow> if prefix q (butlast dest) \<and> lookup fs q = None then Some Dir else lookup fs q)"
proof -
  define items where "items = filter (\<lambda>e. included flt src (fst e)) (src_entries fs src)"
  define news where "news = map (\<lambda>e. (dest @ fst e, snd e))
      (filter (\<lambda>e. ow \<or> snd e = Dir \<or> lookup fs (dest @ fst e) = None) items)"
  from assms obtain fs1 where fs1: "ensureDir fs (butlast dest) = Inr fs1" and fs': "fs' = news @ fs1"
    by (auto simp: copy_def Let_def news_def items_def split: option.splits if_splits sum.splits)
  have mem: "(k, v) \<in> set news \<longleftrightarrow>
      (\<exists>r. k = dest @ r \<and> lookup fs (src @ r) = Some v \<and> included flt src r
           \<and> (ow \<or> v = Dir \<or> lookup fs (dest @ r) = None))" for k v
    by (auto simp: news_def items_def src_entries_iff image_iff)
  have fn: "map_of news q = (if q \<in> fst ` set news then (\<lambda>k. lookup fs (src @ drop (length dest) k)) q else None)"
    by (rule map_of_functional) (auto simp: mem)
  have dom: "q \<in> fst ` set news \<longleftrightarrow>
      prefix dest q \<and> (\<exists>v. lookup fs (src @ drop (length dest) q) = Some v
         \<and> included flt src (drop (length dest) q) \<and> (ow \<or> v = Dir \<or> lookup fs q = None))"
  proof
    assume "q \<in> fst ` set news"
    then obtain v where "(q, v) \<in> set news" by force
    then show "prefix dest q \<and> (\<exists>v. lookup fs (src @ drop (length dest) q) = Some v
         \<and> included flt src (drop (length dest) q) \<and> (ow \<or> v = Dir \<or> lookup fs q = None))"
      unfolding mem by auto
  next
    assume a: "prefix dest q \<and> (\<exists>v. lookup fs (src @ drop (length dest) q) = Some v
         \<and> included flt src (drop (length dest) q) \<and> (ow \<or> v = Dir \<or> lookup fs q = None))"
    then obtain r where q: "q = dest @ r" by (auto simp: prefix_def)
    with a obtain v where "lookup fs (src @ r) = Some v" "included flt src r"
        "ow \<or> v = Dir \<or> lookup fs (dest @ r) = None"
      by auto
    then have "(q, v) \<in> set news"
      unfolding mem q by blast
    then show "q \<in> fst ` set news" by force
  qed
  have "lookup fs' q = (case map_of news q of Some n \<Rightarrow> Some n | None \<Rightarrow> lookup fs1 q)"
    unfolding fs' lookup_def by (simp add: map_add_def)
  then show ?thesis
    unfolding fn dom lookup_ensureDir [OF fs1]
    by (auto split: option.splits)
qed

lemma lookup_copy_under:
  assumes "copy fs src dest flt ow = Inr fs'"
  shows "lookup fs' (dest @ r) =
     (case lookup fs (src @ r) of
        Some n \<Rightarrow>
          if included flt src r \<and> (ow \<or> n = Dir \<or> lookup fs (dest @ r) = None) then Some n
          else lookup fs (dest @ r)
      | None \<Rightarrow> lookup fs (dest @ r))"
proof (cases "flt src")
  case False
  then have "\<not> included flt src r"
    by (cases r) (auto simp: included_def)
  with False copy_unfiltered [OF assms] show ?thesis
    by (auto split: option.splits)
next
  case True
  have src: "lookup fs src \<noteq> None"
    using assms by (auto simp: copy_def split: option.splits)
  have "\<not> prefix (dest @ r) (butlast dest)" if "r \<noteq> [] \<or> dest \<noteq> []"
  proof
    assume "prefix (dest @ r) (butlast dest)"
    then have "length (dest @ r) \<le> length (butlast dest)" by (rule prefix_length_le)
    with that show False by (cases dest rule: rev_cases) auto
  qed
  moreover have "lookup fs (src @ r) \<noteq> None \<and> included flt src r" if "r = []" "dest = []"
    using that src True by (simp add: included_def)
  ultimately show ?thesis
    unfolding lookup_copy [OF assms True]
    by (cases "r = [] \<and> dest = []") (auto split: option.splits)
qed

lemma lookup_copy_outside:
  assumes "copy fs src dest flt ow = Inr fs'" and "\<not> prefix dest q"
  shows "lookup fs' q =
     (if flt src \<and> prefix q (butlast dest) \<and> lookup fs q = None then Some Dir else lookup fs q)"
proof (cases "flt src")
  case False
  with copy_unfiltered [OF assms(1)] show ?thesis by simp
next
  case True
  show ?thesis
    unfolding lookup_copy [OF assms(1) True] using assms(2) True by simp
qed

lemma lookup_copy_parallel:
  assumes "copy fs src dest flt ow = Inr fs'" and "dest \<parallel> q"
  shows "lookup fs' q = lookup fs q"
proof -
  from assms(2) have a: "\<not> prefix dest q" and b: "\<not> prefix q dest"
    by (auto simp: parallel_def)
  have "\<not> prefix q (butlast dest)"
    using b by (metis prefix_order.trans prefixeq_butlast)
  with lookup_copy_outside [OF assms(1) a] show ?thesis by simp
qed

lemma parallel_siblings: "a \<noteq> b \<Longrightarrow> p @ [a] \<parallel> p @ b # r"
  by (simp add: parallel_def)

lemma and_then_Inr: "and_then m f = Inr y \<longleftrightarrow> (\<exists>x. m = Inr x \<and> f x = Inr y)"
  by (cases m) (auto simp: and_then_def)

lemma path_relative_append: "path_relative p (p @ r) = r"
  by (induction p) auto

lemma completed_fs_Some: "completed_fs r = Some fs \<longleftrightarrow> r = Completed fs"
  by (cases r) auto

lemma read_after_Completed: "read_after (Completed fs) p = Some (readFileSync fs p)"
  by (simp add: read_after_def)

section \<open>The sample trees\<close>

lemma sample_trees_wf:
  "wf_fs sample_fs" "wf_fs sample_fs_fresh" "wf_fs sample_fs_claude_file"
  "wf_fs sample_fs_config_file" "wf_fs sample_fs_bad_manifest"
  "wf_fs sample_fs_empty_package_json" "wf_fs sample_fs_empty_claude_md"
  "wf_fs sample_fs_hub" "wf_fs sample_fs_stale_hooks"
  by code_simp+

lemma sample_runs_wf:
  "wf_fs (the (completed_fs (updateAction sample_env \<lparr>force = True, skipDeps = False\<rparr> sample_fs)))"
  "wf_fs (the (completed_fs (installAction sample_install_env \<lparr>force = False, skipDeps = False\<rparr>
     sample_fs_fresh)))"
  "wf_fs (the (completed_fs (syncAction sample_env sample_fs_hub)))"
  by code_simp+

section \<open>Facts about the version readers\<close>

lemma getPackageVersion_truthy: "truthy (getPackageVersion parse dir fs)"
  by (auto simp: getPackageVersion_def js_or_def split: sum.splits option.splits)

lemma getPackageVersion_declared:
  assumes "readFileSync fs (getPackageRoot dir @ [''package.json'']) = Inr doc"
    and "parse doc = Some pkg" and "get_prop pkg ''version'' = Some v" and "truthy v"
  shows "getPackageVersion parse dir fs = v"
  using assms by (simp add: getPackageVersion_def js_or_def)

text \<open>The readers of the two commands give the declared version when it is truthy and
  \<^verbatim>\<open>'0.0.0'\<close> in every other case.\<close>

lemma getPackageVersion_cases:
  "getPackageVersion parse dir fs =
     (case readFileSync fs (getPackageRoot dir @ [''package.json'']) of
        Inl e \<Rightarrow> JStr ''0.0.0''
      | Inr doc \<Rightarrow>
        (case parse doc of
           None \<Rightarrow> JStr ''0.0.0''
         | Some pkg \<Rightarrow>
           (case get_prop pkg ''version'' of
              None \<Rightarrow> JStr ''0.0.0''
            | Some v \<Rightarrow> if truthy v then v else JStr ''0.0.0'')))"
  by (simp add: getPackageVersion_def js_or_def split: sum.splits option.splits)

section \<open>Facts about the steps of update\<close>

lemma backup_configs_mem:
  "backup_configs fs dir names = Inr backups \<Longrightarrow>
   (f, c) \<in> set backups \<longleftrightarrow> f \<in> set names \<and> readFileSync fs (dir @ [f]) = Inr c"
proof (induction names arbitrary: backups)
  case Nil
  then show ?case by auto
next
  case (Cons n names)
  show ?case
  proof (cases "existsSync fs (dir @ [n])")
    case True
    with Cons.prems obtain content rest where
      r: "readFileSync fs (dir @ [n]) = Inr content" "backup_configs fs dir names = Inr rest"
         "backups = (n, content) # rest"
      by (auto simp: and_then_Inr)
    from Cons.IH [OF r(2)] r(1) r(3) show ?thesis by auto
  next
    case False
    then have "readFileSync fs (dir @ [n]) = Inl ENOENT"
      by (auto simp: existsSync_def readFileSync_def split: option.splits)
    moreover from False Cons.prems have "backup_configs fs dir names = Inr backups" by simp
    ultimately show ?thesis using Cons.IH by auto
  qed
qed

lemma backup_configs_map_of:
  assumes "backup_configs fs dir names = Inr backups" and "f \<in> set names"
    and "readFileSync fs (dir @ [f]) = Inr c"
  shows "map_of backups f = Some c"
proof -
  let ?g = "\<lambda>k. case readFileSync fs (dir @ [k]) of Inl e \<Rightarrow> None | Inr c \<Rightarrow> Some c"
  have "map_of backups f = (if f \<in> fst ` set backups then ?g f else None)"
    by (rule map_of_functional) (simp add: backup_configs_mem [OF assms(1)])
  moreover have "(f, c) \<in> set backups"
    using backup_configs_mem [OF assms(1)] assms(2,3) by simp
  then have "f \<in> fst ` set backups" by force
  ultimately show ?thesis using assms(3) by simp
qed

lemma backup_configs_map_of_None:
  assumes "backup_configs fs dir names = Inr backups" and "\<not> existsSync fs (dir @ [f])"
  shows "map_of backups f = None"
proof -
  from assms(2) have "readFileSync fs (dir @ [f]) = Inl ENOENT"
    by (auto simp: existsSync_def readFileSync_def split: option.splits)
  then have "f \<notin> fst ` set backups"
    using backup_configs_mem [OF assms(1)] by force
  then show ?thesis by (simp add: map_of_eq_None_iff)
qed

lemma restore_configs_other:
  "restore_configs fs dir backups = Inr fs' \<Longrightarrow> q \<notin> (\<lambda>f. dir @ [f]) ` fst ` set backups \<Longrightarrow>
   lookup fs' q = lookup fs q"
proof (induction backups arbitrary: fs)
  case Nil
  then show ?case by simp
next
  case (Cons b backups)
  obtain f c where b: "b = (f, c)" by (cases b)
  from Cons.prems(1) b obtain fs1 where
    w: "writeFileSync fs (dir @ [f]) c = Inr fs1" and r: "restore_configs fs1 dir backups = Inr fs'"
    by (auto simp: and_then_Inr)
  from Cons.prems(2) b have "q \<noteq> dir @ [f]" "q \<notin> (\<lambda>f. dir @ [f]) ` fst ` set backups"
    by auto
  with Cons.IH [OF r] lookup_writeFileSync [OF w] show ?case by simp
qed


lemma lookup_restore_settings_local:
  "restore_settings_local fs p b = Inr fs' \<Longrightarrow> q \<noteq> p \<Longrightarrow> lookup fs' q = lookup fs q"
  by (auto simp: restore_settings_local_def lookup_writeFileSync split: option.splits if_splits)

lemma lookup_write_manifest:
  "write_manifest env fs p m = Inr fs' \<Longrightarrow>
   \<exists>text. yaml_dump env m = Some text \<and>
     (\<forall>q. lookup fs' q = (if q = p then Some (File text) else lookup fs q))"
  by (auto simp: write_manifest_def lookup_writeFileSync split: option.splits)

lemma updateAction_Completed:
  assumes "updateAction env opts fs0 = Completed fs'"
  shows "\<exists>backups claudeMdBackup settingsLocalBackup fs1 fs2 fs3 fs4 installed_at.
    existsSync fs0 (cwd env @ [''.aios-core'']) \<and>
    backup_configs fs0 (cwd env @ [''.aios-core'']) LOCAL_CONFIGS = Inr backups \<and>
    read_backup fs0 (cwd env @ [''.claude'', ''CLAUDE.md'']) = Inr claudeMdBackup \<and>
    read_backup fs0 (cwd env @ [''.claude'', ''settings.local.json'']) = Inr settingsLocalBackup \<and>
    copy fs0 (getPackageRoot (dirname env)) (cwd env @ [''.aios-core''])
      (update_filter (getPackageRoot (dirname env)) (force opts)) True = Inr fs1 \<and>
    update_claude fs1 (force opts) claudeMdBackup (getPackageRoot (dirname env) @ [''claude-config''])
      (cwd env @ [''.claude'']) = Inr fs2 \<and>
    restore_configs fs2 (cwd env @ [''.aios-core'']) backups = Inr fs3 \<and>
    restore_settings_local fs3 (cwd env @ [''.claude'', ''settings.local.json'']) settingsLocalBackup = Inr fs4 \<and>
    carried_installed_at env backups = Inr installed_at \<and>
    write_manifest env fs4 (cwd env @ [''.aios-core'', ''install-manifest.yaml''])
      (update_manifest installed_at (now_updated env)
         (getPackageVersion (json_parse env) (dirname env) fs0)
         (read_current_version env fs0 (cwd env @ [''.aios-core'', ''install-manifest.yaml'']))
         (getPackageRoot (dirname env))) = Inr fs'"
proof -
  from assms have ex: "existsSync fs0 (cwd env @ [''.aios-core''])"
    unfolding updateAction_def Let_def by (simp split: if_splits)
  with assms show ?thesis
    unfolding updateAction_def Let_def
    by (simp add: and_then_Inr split: sum.splits)
qed

lemma update_manifest_written:
  assumes "updateAction env opts fs0 = Completed fs'"
  shows "\<exists>m doc. built_manifest env fs0 = Inr m \<and> yaml_dump env m = Some doc \<and>
     readFileSync fs' (cwd env @ [''.aios-core'', ''install-manifest.yaml'']) = Inr doc"
proof -
  from updateAction_Completed [OF assms] obtain backups fs4 installed_at where
    b: "backup_configs fs0 (cwd env @ [''.aios-core'']) LOCAL_CONFIGS = Inr backups" and
    i: "carried_installed_at env backups = Inr installed_at" and
    w: "write_manifest env fs4 (cwd env @ [''.aios-core'', ''install-manifest.yaml''])
          (update_manifest installed_at (now_updated env)
             (getPackageVersion (json_parse env) (dirname env) fs0)
             (read_current_version env fs0 (cwd env @ [''.aios-core'', ''install-manifest.yaml'']))
             (getPackageRoot (dirname env))) = Inr fs'"
    by blast
  from lookup_write_manifest [OF w] obtain doc where
    "yaml_dump env (update_manifest installed_at (now_updated env)
             (getPackageVersion (json_parse env) (dirname env) fs0)
             (read_current_version env fs0 (cwd env @ [''.aios-core'', ''install-manifest.yaml'']))
             (getPackageRoot (dirname env))) = Some doc"
    "lookup fs' (cwd env @ [''.aios-core'', ''install-manifest.yaml'']) = Some (File doc)"
    by auto
  with b i show ?thesis
    by (auto simp: built_manifest_def and_then_Inr readFileSync_Inr)
qed

lemma get_prop_update_manifest:
  "get_prop (update_manifest ia u v pv p) ''installed_at'' = Some ia"
  "get_prop (update_manifest ia u v pv p) ''version'' = Some v"
  "get_prop (update_manifest ia u v pv p) ''previous_version'' = Some pv"
  by (simp_all add: update_manifest_def)

lemma built_manifest_Inr:
  "built_manifest env fs0 = Inr m \<longleftrightarrow>
   (\<exists>backups ia. backup_configs fs0 (cwd env @ [''.aios-core'']) LOCAL_CONFIGS = Inr backups \<and>
      carried_installed_at env backups = Inr ia \<and>
      m = update_manifest ia (now_updated env)
            (getPackageVersion (json_parse env) (dirname env) fs0)
            (read_current_version env fs0 (cwd env @ [''.aios-core'', ''install-manifest.yaml'']))
            (getPackageRoot (dirname env)))"
  by (auto simp: built_manifest_def and_then_Inr)

text \<open>What step 7 builds when the old manifest parses to a value with a truthy
  \<^verbatim>\<open>version\<close>, and when there is no old manifest.\<close>

lemma built_manifest_of_readable_manifest:
  assumes "updateAction env opts fs0 = Completed fs'"
    and "readFileSync fs0 (cwd env @ [''.aios-core'', ''install-manifest.yaml'']) = Inr doc"
    and "doc \<noteq> []" and "yaml_load env doc = Some old"
    and "get_prop old ''version'' = Some v" and "truthy v"
    and "get_prop old ''installed_at'' = Some ia"
  shows "built_manifest env fs0 =
     Inr (update_manifest ia (now_updated env)
            (getPackageVersion (json_parse env) (dirname env) fs0) v (getPackageRoot (dirname env)))"
proof -
  from updateAction_Completed [OF assms(1)] obtain backups ia' where
    b: "backup_configs fs0 (cwd env @ [''.aios-core'']) LOCAL_CONFIGS = Inr backups" and
    i: "carried_installed_at env backups = Inr ia'"
    by blast
  have "map_of backups ''install-manifest.yaml'' = Some doc"
    by (rule backup_configs_map_of [OF b]) (simp_all add: LOCAL_CONFIGS_def assms(2))
  with i assms(3,4,7) have "ia' = ia"
    by (simp add: carried_installed_at_def)
  moreover have "existsSync fs0 (cwd env @ [''.aios-core'', ''install-manifest.yaml''])"
    using assms(2) by (simp add: readFileSync_Inr existsSync_lookup)
  then have "read_current_version env fs0 (cwd env @ [''.aios-core'', ''install-manifest.yaml'']) = v"
    using assms(2,4,5,6) by (simp add: read_current_version_def js_or_def)
  ultimately show ?thesis
    using b i by (simp add: built_manifest_def and_then_def)
qed

lemma built_manifest_without_manifest:
  assumes "updateAction env opts fs0 = Completed fs'"
    and "\<not> existsSync fs0 (cwd env @ [''.aios-core'', ''install-manifest.yaml''])"
  shows "built_manifest env fs0 =
     Inr (update_manifest (JStr (now_installed env)) (now_updated env)
            (getPackageVersion (json_parse env) (dirname env) fs0) (JStr ''unknown'')
            (getPackageRoot (dirname env)))"
proof -
  from updateAction_Completed [OF assms(1)] obtain backups where
    b: "backup_configs fs0 (cwd env @ [''.aios-core'']) LOCAL_CONFIGS = Inr backups"
    by blast
  have "map_of backups ''install-manifest.yaml'' = None"
    by (rule backup_configs_map_of_None [OF b]) (use assms(2) in simp)
  then have "carried_installed_at env backups = Inr (JStr (now_installed env))"
    by (simp add: carried_installed_at_def)
  with b assms(2) show ?thesis
    by (simp add: built_manifest_def and_then_def read_current_version_def)
qed

lemma replace_catalog_parallel:
  assumes "replace_catalog fs src dst = Inr fs'" and "dst \<parallel> q"
  shows "lookup fs' q = lookup fs q"
proof (cases "existsSync fs src")
  case True
  with assms(1) have c: "copy (remove fs dst) src dst (\<lambda>p. True) True = Inr fs'"
    by (simp add: replace_catalog_def)
  from assms(2) have "\<not> prefix dst q" by (simp add: parallel_def)
  then have "lookup (remove fs dst) q = lookup fs q" by (simp add: lookup_remove)
  with lookup_copy_parallel [OF c assms(2)] show ?thesis by simp
next
  case False
  with assms(1) show ?thesis by (simp add: replace_catalog_def)
qed

lemma replace_catalog_copied:
  assumes "replace_catalog fs src dst = Inr fs'" and "existsSync fs src" and "src \<parallel> dst"
  shows "lookup fs' (dst @ r) = lookup fs (src @ r)"
proof -
  from assms(1,2) have c: "copy (remove fs dst) src dst (\<lambda>p. True) True = Inr fs'"
    by (simp add: replace_catalog_def)
  from assms(3) have "dst \<parallel> src @ r"
    using parallel_append [of dst src "[]" r] by (simp add: parallel_commute)
  then have "\<not> prefix dst (src @ r)" by (simp add: parallel_def)
  then have s: "lookup (remove fs dst) (src @ r) = lookup fs (src @ r)"
    by (simp add: lookup_remove)
  have d: "lookup (remove fs dst) (dst @ r) = None"
    by (simp add: lookup_remove)
  have i: "included (\<lambda>p. True) src r" by (simp add: included_def list_all_iff)
  show ?thesis
    unfolding lookup_copy_under [OF c] s d using i by (simp split: option.splits)
qed

lemma update_settings_parallel:
  "update_settings fs src dst = Inr fs' \<Longrightarrow> dst \<parallel> q \<Longrightarrow> lookup fs' q = lookup fs q"
  by (auto simp: update_settings_def lookup_copy_parallel split: if_splits)

lemma update_claude_md_parallel:
  "update_claude_md fs frc b src dst = Inr fs' \<Longrightarrow> dst \<parallel> q \<Longrightarrow> lookup fs' q = lookup fs q"
  by (auto simp: update_claude_md_def and_then_Inr lookup_copy_parallel split: if_splits)

lemma update_claude_Inr:
  assumes "update_claude fs frc b S D = Inr fs'" and "existsSync fs S"
  shows "\<exists>fa fb fc fd.
     replace_catalog fs (S @ [''commands'']) (D @ [''commands'']) = Inr fa \<and>
     replace_catalog fa (S @ [''rules'']) (D @ [''rules'']) = Inr fb \<and>
     replace_catalog fb (S @ [''hooks'']) (D @ [''hooks'']) = Inr fc \<and>
     update_settings fc (S @ [''settings.json'']) (D @ [''settings.json'']) = Inr fd \<and>
     update_claude_md fd frc b (S @ [''CLAUDE.md'']) (D @ [''CLAUDE.md'']) = Inr fs'"
  using assms by (simp add: update_claude_def and_then_Inr)

lemma update_claude_catalog:
  assumes u: "update_claude fs frc b S D = Inr fs'" and S: "existsSync fs S"
    and c: "c = ''commands'' \<or> c = ''rules'' \<or> c = ''hooks''"
    and e: "existsSync fs (S @ [c])" and par: "S \<parallel> D"
  shows "lookup fs' (D @ c # r) = lookup fs (S @ c # r)"
proof -
  from update_claude_Inr [OF u S] obtain fa fb fc fd where
    a: "replace_catalog fs (S @ [''commands'']) (D @ [''commands'']) = Inr fa" and
    b: "replace_catalog fa (S @ [''rules'']) (D @ [''rules'']) = Inr fb" and
    h: "replace_catalog fb (S @ [''hooks'']) (D @ [''hooks'']) = Inr fc" and
    s: "update_settings fc (S @ [''settings.json'']) (D @ [''settings.json'']) = Inr fd" and
    m: "update_claude_md fd frc b (S @ [''CLAUDE.md'']) (D @ [''CLAUDE.md'']) = Inr fs'"
    by blast
  have SD: "D @ y \<parallel> S @ x" for x y
    using parallel_append [OF par, of x y] by (simp add: parallel_commute)
  have DS: "S @ x \<parallel> D @ y" for x y
    using parallel_append [OF par, of x y] .
  have sa: "lookup fa (S @ x) = lookup fs (S @ x)" for x
    by (rule replace_catalog_parallel [OF a SD])
  have sb: "lookup fb (S @ x) = lookup fs (S @ x)" for x
    using replace_catalog_parallel [OF b SD, of x] sa by simp
  show ?thesis
    using c
  proof (elim disjE)
    assume c: "c = ''commands''"
    have "lookup fa ((D @ [''commands'']) @ r) = lookup fs ((S @ [''commands'']) @ r)"
      by (rule replace_catalog_copied [OF a]) (use e c DS in simp_all)
    moreover have "lookup fb (D @ ''commands'' # r) = lookup fa (D @ ''commands'' # r)"
      by (rule replace_catalog_parallel [OF b]) (simp add: parallel_siblings)
    moreover have "lookup fc (D @ ''commands'' # r) = lookup fb (D @ ''commands'' # r)"
      by (rule replace_catalog_parallel [OF h]) (simp add: parallel_siblings)
    moreover have "lookup fd (D @ ''commands'' # r) = lookup fc (D @ ''commands'' # r)"
      by (rule update_settings_parallel [OF s]) (simp add: parallel_siblings)
    moreover have "lookup fs' (D @ ''commands'' # r) = lookup fd (D @ ''commands'' # r)"
      by (rule update_claude_md_parallel [OF m]) (simp add: parallel_siblings)
    ultimately show ?thesis using c by simp
  next
    assume c: "c = ''rules''"
    have "existsSync fa (S @ [''rules''])"
      using e c sa [of "[''rules'']"] by (simp add: existsSync_lookup)
    then have "lookup fb ((D @ [''rules'']) @ r) = lookup fa ((S @ [''rules'']) @ r)"
      by (rule replace_catalog_copied [OF b]) (rule DS)
    moreover have "lookup fa ((S @ [''rules'']) @ r) = lookup fs ((S @ [''rules'']) @ r)"
      using sa [of "''rules'' # r"] by simp
    moreover have "lookup fc (D @ ''rules'' # r) = lookup fb (D @ ''rules'' # r)"
      by (rule replace_catalog_parallel [OF h]) (simp add: parallel_siblings)
    moreover have "lookup fd (D @ ''rules'' # r) = lookup fc (D @ ''rules'' # r)"
      by (rule update_settings_parallel [OF s]) (simp add: parallel_siblings)
    moreover have "lookup fs' (D @ ''rules'' # r) = lookup fd (D @ ''rules'' # r)"
      by (rule update_claude_md_parallel [OF m]) (simp add: parallel_siblings)
    ultimately show ?thesis using c by simp
  next
    assume c: "c = ''hooks''"
    have "existsSync fb (S @ [''hooks''])"
      using e c sb [of "[''hooks'']"] by (simp add: existsSync_lookup)
    then have "lookup fc ((D @ [''hooks'']) @ r) = lookup fb ((S @ [''hooks'']) @ r)"
      by (rule replace_catalog_copied [OF h]) (rule DS)
    moreover have "lookup fb ((S @ [''hooks'']) @ r) = lookup fs ((S @ [''hooks'']) @ r)"
      using sb [of "''hooks'' # r"] by simp
    moreover have "lookup fd (D @ ''hooks'' # r) = lookup fc (D @ ''hooks'' # r)"
      by (rule update_settings_parallel [OF s]) (simp add: parallel_siblings)
    moreover have "lookup fs' (D @ ''hooks'' # r) = lookup fd (D @ ''hooks'' # r)"
      by (rule update_claude_md_parallel [OF m]) (simp add: parallel_siblings)
    ultimately show ?thesis using c by simp
  qed
qed

text \<open>Steps 6 and 7 write below \<^verbatim>\<open>.aios-core\<close> and to \<^verbatim>\<open>.claude/settings.local.json\<close>
  only.\<close>

lemma update_tail_frame:
  assumes "restore_configs fs2 (w @ [''.aios-core'']) backups = Inr fs3"
    and "restore_settings_local fs3 (w @ [''.claude'', ''settings.local.json'']) b = Inr fs4"
    and "write_manifest env fs4 (w @ [''.aios-core'', ''install-manifest.yaml'']) m = Inr fs5"
    and "c \<noteq> ''settings.local.json''"
  shows "lookup fs5 (w @ ''.claude'' # c # r) = lookup fs2 (w @ ''.claude'' # c # r)"
proof -
  let ?q = "w @ ''.claude'' # c # r"
  have "?q \<notin> (\<lambda>f. (w @ [''.aios-core'']) @ [f]) ` fst ` set backups" by auto
  from restore_configs_other [OF assms(1) this] have "lookup fs3 ?q = lookup fs2 ?q" .
  moreover have "lookup fs4 ?q = lookup fs3 ?q"
    by (rule lookup_restore_settings_local [OF assms(2)]) (use assms(4) in simp)
  moreover have "lookup fs5 ?q = lookup fs4 ?q"
    using lookup_write_manifest [OF assms(3)] by auto
  ultimately show ?thesis by simp
qed

lemma update_claude_claude_md:
  assumes u: "update_claude fs frc b S D = Inr fs'" and S: "existsSync fs S"
    and t: "readFileSync fs (S @ [''CLAUDE.md'']) = Inr template" and par: "S \<parallel> D"
  shows "lookup fs' (D @ [''CLAUDE.md'']) =
     (if \<not> truthy_backup b \<or> b = Some template \<or> frc then Some (File template)
      else lookup fs (D @ [''CLAUDE.md'']))"
proof -
  from update_claude_Inr [OF u S] obtain fa fb fc fd where
    a: "replace_catalog fs (S @ [''commands'']) (D @ [''commands'']) = Inr fa" and
    b: "replace_catalog fa (S @ [''rules'']) (D @ [''rules'']) = Inr fb" and
    h: "replace_catalog fb (S @ [''hooks'']) (D @ [''hooks'']) = Inr fc" and
    s: "update_settings fc (S @ [''settings.json'']) (D @ [''settings.json'']) = Inr fd" and
    m: "update_claude_md fd frc b (S @ [''CLAUDE.md'']) (D @ [''CLAUDE.md'']) = Inr fs'"
    by blast
  have SD: "D @ y \<parallel> S @ x" for x y
    using parallel_append [OF par, of x y] by (simp add: parallel_commute)
  have src: "lookup fd (S @ x) = lookup fs (S @ x)" for x
    using replace_catalog_parallel [OF a SD, of x] replace_catalog_parallel [OF b SD, of x]
      replace_catalog_parallel [OF h SD, of x] update_settings_parallel [OF s SD, of x]
    by simp
  have "lookup fa (D @ [''CLAUDE.md'']) = lookup fs (D @ [''CLAUDE.md''])"
    by (rule replace_catalog_parallel [OF a]) (simp add: parallel_siblings)
  moreover have "lookup fb (D @ [''CLAUDE.md'']) = lookup fa (D @ [''CLAUDE.md''])"
    by (rule replace_catalog_parallel [OF b]) (simp add: parallel_siblings)
  moreover have "lookup fc (D @ [''CLAUDE.md'']) = lookup fb (D @ [''CLAUDE.md''])"
    by (rule replace_catalog_parallel [OF h]) (simp add: parallel_siblings)
  moreover have "lookup fd (D @ [''CLAUDE.md'']) = lookup fc (D @ [''CLAUDE.md''])"
    by (rule update_settings_parallel [OF s]) (simp add: parallel_siblings)
  ultimately have dst: "lookup fd (D @ [''CLAUDE.md'']) = lookup fs (D @ [''CLAUDE.md''])"
    by simp
  have rd: "lookup fd (S @ [''CLAUDE.md'']) = Some (File template)"
    using t src [of "[''CLAUDE.md'']"] by (simp add: readFileSync_Inr)
  then have ex: "existsSync fd (S @ [''CLAUDE.md''])" "readFileSync fd (S @ [''CLAUDE.md'']) = Inr template"
    by (simp_all add: existsSync_lookup readFileSync_Inr)
  show ?thesis
  proof (cases "\<not> truthy_backup b \<or> b = Some template \<or> frc")
    case True
    with m ex have c: "copy fd (S @ [''CLAUDE.md'']) (D @ [''CLAUDE.md'']) (\<lambda>p. True) True = Inr fs'"
      by (simp add: update_claude_md_def and_then_def)
    have "included (\<lambda>p. True) (S @ [''CLAUDE.md'']) []" by (simp add: included_def)
    with lookup_copy_under [OF c, of "[]"] rd True show ?thesis by simp
  next
    case False
    with m ex have "fs' = fd"
      by (simp add: update_claude_md_def and_then_def)
    with dst False show ?thesis by simp
  qed
qed

text \<open>What \<^verbatim>\<open>.claude/CLAUDE.md\<close> holds after an update, when the package has a
  template for it and lies outside the two target directories.\<close>

lemma update_claude_md_outcome:
  assumes run: "updateAction env opts fs0 = Completed fs'"
    and S: "existsSync fs0 (getPackageRoot (dirname env) @ [''claude-config''])"
    and t: "readFileSync fs0 (getPackageRoot (dirname env) @ [''claude-config'', ''CLAUDE.md''])
              = Inr template"
    and pT: "getPackageRoot (dirname env) \<parallel> cwd env @ [''.aios-core'']"
    and pD: "getPackageRoot (dirname env) \<parallel> cwd env @ [''.claude'']"
  shows "\<exists>b. read_backup fs0 (cwd env @ [''.claude'', ''CLAUDE.md'']) = Inr b \<and>
     lookup fs' (cwd env @ [''.claude'', ''CLAUDE.md'']) =
       (if \<not> truthy_backup b \<or> b = Some template \<or> force opts then Some (File template)
        else lookup fs0 (cwd env @ [''.claude'', ''CLAUDE.md'']))"
proof -
  let ?P = "getPackageRoot (dirname env)"
  let ?T = "cwd env @ [''.aios-core'']"
  let ?D = "cwd env @ [''.claude'']"
  from updateAction_Completed [OF run] obtain backups b sb fs1 fs2 fs3 fs4 ia where
    rb: "read_backup fs0 (cwd env @ [''.claude'', ''CLAUDE.md'']) = Inr b" and
    c: "copy fs0 ?P ?T (update_filter ?P (force opts)) True = Inr fs1" and
    u: "update_claude fs1 (force opts) b (?P @ [''claude-config'']) ?D = Inr fs2" and
    r: "restore_configs fs2 ?T backups = Inr fs3" and
    s: "restore_settings_local fs3 (cwd env @ [''.claude'', ''settings.local.json'']) sb = Inr fs4" and
    w: "write_manifest env fs4 (cwd env @ [''.aios-core'', ''install-manifest.yaml''])
          (update_manifest ia (now_updated env)
             (getPackageVersion (json_parse env) (dirname env) fs0)
             (read_current_version env fs0 (cwd env @ [''.aios-core'', ''install-manifest.yaml'']))
             (getPackageRoot (dirname env))) = Inr fs'"
    by blast
  have TP: "?T \<parallel> ?P @ x" for x
    using parallel_append [OF pT, of x "[]"] by (simp add: parallel_commute)
  have src: "lookup fs1 (?P @ x) = lookup fs0 (?P @ x)" for x
    by (rule lookup_copy_parallel [OF c TP])
  have dst: "lookup fs1 (?D @ [''CLAUDE.md'']) = lookup fs0 (?D @ [''CLAUDE.md''])"
    by (rule lookup_copy_parallel [OF c]) (simp add: parallel_def)
  have S1: "existsSync fs1 (?P @ [''claude-config''])"
    using S src [of "[''claude-config'']"] by (simp add: existsSync_lookup)
  have t1: "readFileSync fs1 ((?P @ [''claude-config'']) @ [''CLAUDE.md'']) = Inr template"
    using t src [of "[''claude-config'', ''CLAUDE.md'']"] by (simp add: readFileSync_Inr)
  have par: "?P @ [''claude-config''] \<parallel> ?D"
    using parallel_append [OF pD, of "[''claude-config'']" "[]"] by simp
  have "lookup fs' (cwd env @ ''.claude'' # ''CLAUDE.md'' # []) =
      lookup fs2 (cwd env @ ''.claude'' # ''CLAUDE.md'' # [])"
    by (rule update_tail_frame [OF r s w]) simp
  with update_claude_claude_md [OF u S1 t1 par] dst rb show ?thesis
    by simp
qed

section \<open>Facts about the steps of sync\<close>

lemma not_included_never_sync:
  assumes "s \<in> set r" and "s \<in> set NEVER_SYNC"
  shows "\<not> included sync_filter src r"
proof -
  from assms(1) obtain r1 r2 where r: "r = r1 @ s # r2"
    by (auto simp: in_set_conv_decomp)
  have "prefix (r1 @ [s]) r" by (simp add: r)
  moreover have "\<not> sync_filter (src @ r1 @ [s])"
    using assms(2) by (simp add: sync_filter_def path_basename_def)
  ultimately show ?thesis
    by (auto simp: included_def list_all_iff)
qed

lemma sync_copy_filtered:
  assumes "copy (remove fs dest) src dest sync_filter ow = Inr fs'"
    and "s \<in> set r" and "s \<in> set NEVER_SYNC"
  shows "lookup fs' (dest @ r) = None"
  unfolding lookup_copy_under [OF assms(1)]
  using not_included_never_sync [OF assms(2,3), of src]
  by (simp add: lookup_remove split: option.splits)

lemma sync_items_parallel:
  assumes "sync_items fs cd ccd items = Inr fs'" and "\<forall>i\<in>set items. ccd @ [i] \<parallel> q"
  shows "lookup fs' q = lookup fs q"
  using assms
proof (induction items arbitrary: fs)
  case Nil
  then show ?case by simp
next
  case (Cons h items)
  from Cons.prems(2) have hq: "ccd @ [h] \<parallel> q" and rest: "\<forall>i\<in>set items. ccd @ [i] \<parallel> q"
    by simp_all
  consider (missing) "\<not> existsSync fs (cd @ [h])"
    | (dir) "existsSync fs (cd @ [h])" "isDirectory fs (cd @ [h])"
    | (regular) "existsSync fs (cd @ [h])" "\<not> isDirectory fs (cd @ [h])"
    by blast
  then show ?case
  proof cases
    case missing
    with Cons.prems(1) have "sync_items fs cd ccd items = Inr fs'" by simp
    from Cons.IH [OF this rest] show ?thesis .
  next
    case dir
    with Cons.prems(1) obtain f1 where
      c: "copy (remove fs (ccd @ [h])) (cd @ [h]) (ccd @ [h]) sync_filter True = Inr f1" and
      s: "sync_items f1 cd ccd items = Inr fs'"
      by (auto simp: and_then_Inr)
    from hq have "\<not> prefix (ccd @ [h]) q" by (simp add: parallel_def)
    then have "lookup (remove fs (ccd @ [h])) q = lookup fs q" by (simp add: lookup_remove)
    with lookup_copy_parallel [OF c hq] Cons.IH [OF s rest] show ?thesis by simp
  next
    case regular
    with Cons.prems(1) obtain f1 where
      c: "copy fs (cd @ [h]) (ccd @ [h]) (\<lambda>p. True) True = Inr f1" and
      s: "sync_items f1 cd ccd items = Inr fs'"
      by (auto simp: and_then_Inr)
    with lookup_copy_parallel [OF c hq] Cons.IH [OF s rest] show ?thesis by simp
  qed
qed

lemma sync_items_never_sync:
  assumes "sync_items fs cd ccd items = Inr fs'" and "cd \<parallel> ccd"
    and "item \<in> set items" and "isDirectory fs (cd @ [item])"
    and "s \<in> set r" and "s \<in> set NEVER_SYNC"
  shows "lookup fs' (ccd @ item # r) = None"
  using assms(1,3,4)
proof (induction items arbitrary: fs)
  case Nil
  then show ?case by simp
next
  case (Cons h items)
  have src: "ccd @ [i] \<parallel> cd @ x" for i x
    using parallel_append [OF assms(2), of x "[i]"] by (simp add: parallel_commute)
  consider (missing) "\<not> existsSync fs (cd @ [h])"
    | (dir) "existsSync fs (cd @ [h])" "isDirectory fs (cd @ [h])"
    | (regular) "existsSync fs (cd @ [h])" "\<not> isDirectory fs (cd @ [h])"
    by blast
  then show ?case
  proof cases
    case missing
    with Cons.prems(3) have "item \<noteq> h"
      by (auto simp: isDirectory_def existsSync_def split: option.splits)
    with Cons.prems(2) have "item \<in> set items" by simp
    moreover from missing Cons.prems(1) have "sync_items fs cd ccd items = Inr fs'" by simp
    ultimately show ?thesis using Cons.IH Cons.prems(3) by blast
  next
    case dir
    with Cons.prems(1) obtain f1 where
      c: "copy (remove fs (ccd @ [h])) (cd @ [h]) (ccd @ [h]) sync_filter True = Inr f1" and
      s: "sync_items f1 cd ccd items = Inr fs'"
      by (auto simp: and_then_Inr)
    have np: "\<not> prefix (ccd @ [h]) (cd @ [item])"
      using src [of h "[item]"] unfolding parallel_def by blast
    have "lookup (remove fs (ccd @ [h])) (cd @ [item]) = lookup fs (cd @ [item])"
      unfolding lookup_remove by (rule if_not_P [OF np])
    with lookup_copy_parallel [OF c src, of "[item]"] Cons.prems(3)
    have d1: "isDirectory f1 (cd @ [item])" by (simp add: isDirectory_def)
    show ?thesis
    proof (cases "item \<in> set items")
      case True
      from Cons.IH [OF s True d1] show ?thesis .
    next
      case False
      with Cons.prems(2) have h: "h = item" by simp
      from False have "\<forall>i\<in>set items. ccd @ [i] \<parallel> ccd @ item # r"
        by (auto intro: parallel_siblings)
      from sync_items_parallel [OF s this] sync_copy_filtered [OF c assms(5,6)] h
      show ?thesis by simp
    qed
  next
    case regular
    with Cons.prems(1) obtain f1 where
      c: "copy fs (cd @ [h]) (ccd @ [h]) (\<lambda>p. True) True = Inr f1" and
      s: "sync_items f1 cd ccd items = Inr fs'"
      by (auto simp: and_then_Inr)
    from regular Cons.prems(3) have "item \<noteq> h" by auto
    with Cons.prems(2) have i: "item \<in> set items" by simp
    from lookup_copy_parallel [OF c src, of "[item]"] Cons.prems(3)
    have "isDirectory f1 (cd @ [item])" by (simp add: isDirectory_def)
    from Cons.IH [OF s i this] show ?thesis .
  qed
qed

lemma remove_never_sync_None:
  "lookup fs q = None \<Longrightarrow> lookup (remove_never_sync fs ccd items) q = None"
  by (induction items arbitrary: fs) (simp_all add: lookup_remove)

lemma remove_never_sync_removed:
  "i \<in> set items \<Longrightarrow> lookup (remove_never_sync fs ccd items) (ccd @ [i]) = None"
proof (induction items arbitrary: fs)
  case Nil
  then show ?case by simp
next
  case (Cons h items)
  show ?case
  proof (cases "i \<in> set items")
    case True
    then show ?thesis using Cons.IH by simp
  next
    case False
    with Cons.prems have h: "h = i" by simp
    show ?thesis
    proof (cases "existsSync fs (ccd @ [i])")
      case True
      have "lookup (remove fs (ccd @ [i])) (ccd @ [i]) = None" by (simp add: lookup_remove)
      then show ?thesis using True h by (simp add: remove_never_sync_None)
    next
      case False
      then have "lookup fs (ccd @ [i]) = None" by (simp add: existsSync_lookup)
      then show ?thesis using False h by (simp add: remove_never_sync_None)
    qed
  qed
qed

lemma syncAction_Completed:
  assumes "syncAction env fs0 = Completed fs'"
  shows "\<exists>f1 f2. ensureDir fs0 (cwd env @ [''.aios-core'', ''claude-config'']) = Inr f1 \<and>
     sync_items f1 (cwd env @ [''.claude'']) (cwd env @ [''.aios-core'', ''claude-config''])
       SYNC_ITEMS = Inr f2 \<and>
     fs' = remove_never_sync f2 (cwd env @ [''.aios-core'', ''claude-config'']) NEVER_SYNC"
  using assms unfolding syncAction_def Let_def
  by (auto simp: and_then_Inr split: if_splits sum.splits)

section \<open>Update: local configuration (C1)\<close>




section \<open>Update: an unreadable manifest (C2)\<close>

text \<open>
  Claim C2 (the code departs from it).  Step 2 reads the old manifest inside a
  \<^verbatim>\<open>try\<close>, so a manifest that \<^verbatim>\<open>yaml.load\<close> rejects gives the previous version
  \<^verbatim>\<open>unknown\<close>; step 7 parses the same text again outside any \<^verbatim>\<open>try\<close>, so the run
  never reaches the \<^verbatim>\<open>writeFileSync\<close> of the new manifest.
\<close>

theorem update_stops_on_unreadable_manifest:
  assumes "readFileSync fs0 (cwd env @ [''.aios-core'', ''install-manifest.yaml'']) = Inr text"
    and "text \<noteq> []" and "yaml_load env text = None"
  shows "read_current_version env fs0 (cwd env @ [''.aios-core'', ''install-manifest.yaml''])
           = JStr ''unknown'' \<and>
         completed_fs (updateAction env opts fs0) = None"
proof
  have "existsSync fs0 (cwd env @ [''.aios-core'', ''install-manifest.yaml''])"
    using assms(1) by (simp add: readFileSync_Inr existsSync_def)
  then show "read_current_version env fs0 (cwd env @ [''.aios-core'', ''install-manifest.yaml''])
      = JStr ''unknown''"
    using assms(1,3) by (simp add: read_current_version_def)
next
  show "completed_fs (updateAction env opts fs0) = None"
  proof (rule ccontr)
    assume "completed_fs (updateAction env opts fs0) \<noteq> None"
    then obtain fs' where "updateAction env opts fs0 = Completed fs'"
      by (auto simp: completed_fs_Some)
    from updateAction_Completed [OF this] obtain backups installed_at where
      b: "backup_configs fs0 (cwd env @ [''.aios-core'']) LOCAL_CONFIGS = Inr backups" and
      i: "carried_installed_at env backups = Inr installed_at"
      by blast
    have "map_of backups ''install-manifest.yaml'' = Some text"
      by (rule backup_configs_map_of [OF b]) (simp_all add: LOCAL_CONFIGS_def assms(1))
    with i assms(2,3) show False
      by (simp add: carried_installed_at_def)
  qed
qed

text \<open>The sample project with \<^verbatim>\<open>{\<close> as its manifest: the run ends in the
  YAMLException of step 7.\<close>

theorem update_stops_on_unreadable_manifest_witness:
  "readFileSync sample_fs_bad_manifest [''proj'', ''.aios-core'', ''install-manifest.yaml''] = Inr ''{'' \<and>
   yaml_load sample_env ''{'' = None \<and>
   updateAction sample_env \<lparr>force = False, skipDeps = False\<rparr> sample_fs_bad_manifest
     = Threw YAMLException \<and>
   completed_fs (updateAction sample_env \<lparr>force = False, skipDeps = False\<rparr> sample_fs_bad_manifest)
     = None"
proof -
  have h: "readFileSync sample_fs_bad_manifest [''proj'', ''.aios-core'', ''install-manifest.yaml'']
      = Inr ''{''"
    by code_simp
  have l: "yaml_load sample_env ''{'' = None" by code_simp
  have t: "updateAction sample_env \<lparr>force = False, skipDeps = False\<rparr> sample_fs_bad_manifest
     = Threw YAMLException"
    by code_simp
  have c: "cwd sample_env = [''proj'']" by (simp add: sample_env_def)
  from update_stops_on_unreadable_manifest [of sample_fs_bad_manifest sample_env "''{''"
      "\<lparr>force = False, skipDeps = False\<rparr>"] h l c
  have "completed_fs (updateAction sample_env \<lparr>force = False, skipDeps = False\<rparr> sample_fs_bad_manifest)
     = None"
    by simp
  with h l t show ?thesis by simp
qed

section \<open>Update: the catalogs (C3)\<close>

text \<open>
  Claim C3.  Let the package lie outside the target's \<^verbatim>\<open>.aios-core\<close> and
  \<^verbatim>\<open>.claude\<close>, and let its \<^verbatim>\<open>claude-config\<close> hold the catalog \<open>catalog\<close>, one of
  \<^verbatim>\<open>commands\<close>, \<^verbatim>\<open>rules\<close> and \<^verbatim>\<open>hooks\<close>.  When \<^verbatim>\<open>update\<close> has run to its end, every
  path below \<^verbatim>\<open>.claude/<catalog>\<close> holds exactly what the same path below the package's
  catalog held: the destination is removed before the copy, so an entry that the
  package does not have is gone, and nothing of the old catalog is merged in.
\<close>

theorem update_replaces_catalogs:
  assumes "updateAction env opts fs0 = Completed fs'"
    and "catalog = ''commands'' \<or> catalog = ''rules'' \<or> catalog = ''hooks''"
    and "existsSync fs0 (getPackageRoot (dirname env) @ [''claude-config''])"
    and "existsSync fs0 (getPackageRoot (dirname env) @ [''claude-config'', catalog])"
    and "getPackageRoot (dirname env) \<parallel> cwd env @ [''.aios-core'']"
    and "getPackageRoot (dirname env) \<parallel> cwd env @ [''.claude'']"
  shows "lookup fs' (cwd env @ ''.claude'' # catalog # r)
       = lookup fs0 (getPackageRoot (dirname env) @ ''claude-config'' # catalog # r)"
proof -
  let ?P = "getPackageRoot (dirname env)"
  let ?T = "cwd env @ [''.aios-core'']"
  let ?D = "cwd env @ [''.claude'']"
  from updateAction_Completed [OF assms(1)] obtain backups b sb fs1 fs2 fs3 fs4 ia where
    c: "copy fs0 ?P ?T (update_filter ?P (force opts)) True = Inr fs1" and
    u: "update_claude fs1 (force opts) b (?P @ [''claude-config'']) ?D = Inr fs2" and
    r: "restore_configs fs2 ?T backups = Inr fs3" and
    s: "restore_settings_local fs3 (cwd env @ [''.claude'', ''settings.local.json'']) sb = Inr fs4" and
    w: "write_manifest env fs4 (cwd env @ [''.aios-core'', ''install-manifest.yaml''])
          (update_manifest ia (now_updated env)
             (getPackageVersion (json_parse env) (dirname env) fs0)
             (read_current_version env fs0 (cwd env @ [''.aios-core'', ''install-manifest.yaml'']))
             (getPackageRoot (dirname env))) = Inr fs'"
    by blast
  have TP: "?T \<parallel> ?P @ x" for x
    using parallel_append [OF assms(5), of x "[]"] by (simp add: parallel_commute)
  have src: "lookup fs1 (?P @ x) = lookup fs0 (?P @ x)" for x
    by (rule lookup_copy_parallel [OF c TP])
  have S1: "existsSync fs1 (?P @ [''claude-config''])"
    using assms(3) src [of "[''claude-config'']"] by (simp add: existsSync_lookup)
  have e1: "existsSync fs1 ((?P @ [''claude-config'']) @ [catalog])"
    using assms(4) src [of "[''claude-config'', catalog]"] by (simp add: existsSync_lookup)
  have par: "?P @ [''claude-config''] \<parallel> ?D"
    using parallel_append [OF assms(6), of "[''claude-config'']" "[]"] by simp
  have ne: "catalog \<noteq> ''settings.local.json''"
    using assms(2) by auto
  have "lookup fs' (cwd env @ ''.claude'' # catalog # r) = lookup fs2 (cwd env @ ''.claude'' # catalog # r)"
    by (rule update_tail_frame [OF r s w ne])
  also have "\<dots> = lookup fs2 (?D @ catalog # r)" by simp
  also have "\<dots> = lookup fs1 ((?P @ [''claude-config'']) @ catalog # r)"
    by (rule update_claude_catalog [OF u S1 assms(2) e1 par])
  also have "\<dots> = lookup fs0 (?P @ ''claude-config'' # catalog # r)"
    using src [of "''claude-config'' # catalog # r"] by simp
  finally show ?thesis .
qed

text \<open>In the sample project the package's \<^verbatim>\<open>commands\<close> holds \<^verbatim>\<open>new.md\<close> and the
  target's holds \<^verbatim>\<open>old.md\<close>: after the run \<^verbatim>\<open>new.md\<close> is there and \<^verbatim>\<open>old.md\<close> is
  gone.\<close>

theorem update_replaces_catalogs_witness:
  "readFileSync sample_fs [''proj'', ''.claude'', ''commands'', ''old.md''] = Inr ''old command'' \<and>
   lookup sample_fs [''pkg'', ''claude-config'', ''commands'', ''old.md''] = None \<and>
   read_after (updateAction sample_env \<lparr>force = False, skipDeps = False\<rparr> sample_fs)
     [''proj'', ''.claude'', ''commands'', ''old.md''] = Some (Inl ENOENT) \<and>
   read_after (updateAction sample_env \<lparr>force = False, skipDeps = False\<rparr> sample_fs)
     [''proj'', ''.claude'', ''commands'', ''new.md''] = Some (Inr ''new command'')"
proof -
  let ?r = "updateAction sample_env \<lparr>force = False, skipDeps = False\<rparr> sample_fs"
  have "completed_fs ?r \<noteq> None" by code_simp
  then obtain fs' where r: "?r = Completed fs'"
    by (auto simp: completed_fs_Some)
  have P: "getPackageRoot (dirname sample_env) = [''pkg'']" by code_simp
  have c: "cwd sample_env = [''proj'']" by (simp add: sample_env_def)
  have e: "existsSync sample_fs ([''pkg''] @ [''claude-config''])"
    "existsSync sample_fs ([''pkg''] @ [''claude-config'', ''commands''])"
    by code_simp+
  have p: "[''pkg''] \<parallel> [''proj''] @ [''.aios-core'']" "[''pkg''] \<parallel> [''proj''] @ [''.claude'']"
    by (simp_all add: parallel_def)
  have eq: "lookup fs' ([''proj''] @ ''.claude'' # ''commands'' # r)
      = lookup sample_fs ([''pkg''] @ ''claude-config'' # ''commands'' # r)" for r
    using update_replaces_catalogs [OF r, of "''commands''" r] e p unfolding P c by simp
  have o: "readFileSync sample_fs [''proj'', ''.claude'', ''commands'', ''old.md''] = Inr ''old command''"
    "lookup sample_fs [''pkg'', ''claude-config'', ''commands'', ''old.md''] = None"
    "lookup sample_fs [''pkg'', ''claude-config'', ''commands'', ''new.md''] = Some (File ''new command'')"
    by code_simp+
  from eq [of "[''old.md'']"] eq [of "[''new.md'']"] o r show ?thesis
    by (simp add: read_after_Completed readFileSync_def)
qed

section \<open>Update twice (C4)\<close>

text \<open>
  Claim C4, as amended.  Let \<^verbatim>\<open>update\<close> run twice in succession from the same package
  (same package root, same version read) in the same directory, and let
  \<^verbatim>\<open>yaml.load\<close> give back the manifest object that the first run serialised.  Then
  the manifest object of the second run has the \<^verbatim>\<open>installed_at\<close>, the \<^verbatim>\<open>version\<close>
  and the \<^verbatim>\<open>source\<close> of the first; its \<^verbatim>\<open>updated_at\<close> is the time of the second
  run, and its \<^verbatim>\<open>previous_version\<close> is the package version, whatever the first run
  had recorded there.  Each run leaves the serialisation of its object on disk.
\<close>

theorem update_twice:
  assumes "updateAction env opts fs0 = Completed fs1"
    and "updateAction env' opts' fs1 = Completed fs2"
    and "dirname env' = dirname env" and "cwd env' = cwd env"
    and "getPackageVersion (json_parse env') (dirname env') fs1
          = getPackageVersion (json_parse env) (dirname env) fs0"
    and "\<forall>m doc. built_manifest env fs0 = Inr m \<longrightarrow> yaml_dump env m = Some doc \<longrightarrow>
           doc \<noteq> [] \<and> yaml_load env' doc = Some m"
  shows "\<exists>installed_at previous doc1 doc2.
     built_manifest env fs0
       = Inr (update_manifest installed_at (now_updated env)
                (getPackageVersion (json_parse env) (dirname env) fs0) previous
                (getPackageRoot (dirname env))) \<and>
     built_manifest env' fs1
       = Inr (update_manifest installed_at (now_updated env')
                (getPackageVersion (json_parse env) (dirname env) fs0)
                (getPackageVersion (json_parse env) (dirname env) fs0)
                (getPackageRoot (dirname env))) \<and>
     yaml_dump env (update_manifest installed_at (now_updated env)
                (getPackageVersion (json_parse env) (dirname env) fs0) previous
                (getPackageRoot (dirname env))) = Some doc1 \<and>
     readFileSync fs1 (cwd env @ [''.aios-core'', ''install-manifest.yaml'']) = Inr doc1 \<and>
     yaml_dump env' (update_manifest installed_at (now_updated env')
                (getPackageVersion (json_parse env) (dirname env) fs0)
                (getPackageVersion (json_parse env) (dirname env) fs0)
                (getPackageRoot (dirname env))) = Some doc2 \<and>
     readFileSync fs2 (cwd env @ [''.aios-core'', ''install-manifest.yaml'']) = Inr doc2"
proof -
  let ?V = "getPackageVersion (json_parse env) (dirname env) fs0"
  let ?P = "getPackageRoot (dirname env)"
  let ?mp = "cwd env @ [''.aios-core'', ''install-manifest.yaml'']"
  from update_manifest_written [OF assms(1)] obtain m1 doc1 where
    m1: "built_manifest env fs0 = Inr m1" and d1: "yaml_dump env m1 = Some doc1" and
    r1: "readFileSync fs1 ?mp = Inr doc1"
    by blast
  from m1 obtain ia1 where
    m1_eq: "m1 = update_manifest ia1 (now_updated env) ?V (read_current_version env fs0 ?mp) ?P"
    unfolding built_manifest_Inr by blast
  from assms(6) m1 d1 have ne: "doc1 \<noteq> []" and l1: "yaml_load env' doc1 = Some m1"
    by blast+
  from update_manifest_written [OF assms(2)] obtain m2 doc2 where
    m2: "built_manifest env' fs1 = Inr m2" and d2: "yaml_dump env' m2 = Some doc2" and
    r2: "readFileSync fs2 ?mp = Inr doc2"
    by (auto simp: assms(4))
  have v2: "getPackageVersion (json_parse env') (dirname env) fs1 = ?V"
    using assms(3,5) by simp
  from m2 obtain backups2 ia2 where
    b2: "backup_configs fs1 (cwd env @ [''.aios-core'']) LOCAL_CONFIGS = Inr backups2" and
    i2: "carried_installed_at env' backups2 = Inr ia2" and
    m2_eq: "m2 = update_manifest ia2 (now_updated env') ?V (read_current_version env' fs1 ?mp) ?P"
    unfolding built_manifest_Inr assms(3,4) v2 by blast
  have "existsSync fs1 ?mp"
    using r1 by (simp add: readFileSync_Inr existsSync_def)
  then have cv: "read_current_version env' fs1 ?mp = ?V"
    using r1 l1 getPackageVersion_truthy [of "json_parse env" "dirname env" fs0]
    by (simp add: read_current_version_def m1_eq get_prop_update_manifest js_or_def)
  have "map_of backups2 ''install-manifest.yaml'' = Some doc1"
    by (rule backup_configs_map_of [OF b2]) (simp_all add: LOCAL_CONFIGS_def r1)
  with i2 ne l1 have ia: "ia2 = ia1"
    by (simp add: carried_installed_at_def m1_eq get_prop_update_manifest)
  let ?M1 = "update_manifest ia1 (now_updated env) ?V (read_current_version env fs0 ?mp) ?P"
  let ?M2 = "update_manifest ia1 (now_updated env') ?V ?V ?P"
  have "m2 = ?M2" using m2_eq cv ia by simp
  with m2 d2 have M2: "built_manifest env' fs1 = Inr ?M2" "yaml_dump env' ?M2 = Some doc2"
    by simp_all
  from m1 d1 m1_eq have M1: "built_manifest env fs0 = Inr ?M1" "yaml_dump env ?M1 = Some doc1"
    by simp_all
  from M1 M2 r1 r2 show ?thesis by blast
qed

text \<open>The sample project, updated in February and again in March.\<close>

theorem update_twice_witness:
  "built_manifest sample_env sample_fs = Inr updated_manifest \<and>
   built_manifest sample_env_later
     (the (completed_fs (updateAction sample_env \<lparr>force = False, skipDeps = False\<rparr> sample_fs)))
     = Inr updated_again_manifest \<and>
   (\<exists>installed_at previous.
      updated_manifest = update_manifest installed_at ''2026-02-01T00:00:00.000Z''
        (JStr ''1.2.0'') previous [''pkg''] \<and>
      updated_again_manifest = update_manifest installed_at ''2026-03-01T00:00:00.000Z''
        (JStr ''1.2.0'') (JStr ''1.2.0'') [''pkg''])"
proof -
  let ?o = "\<lparr>force = False, skipDeps = False\<rparr>"
  let ?fs1 = "the (completed_fs (updateAction sample_env ?o sample_fs))"
  have "completed_fs (updateAction sample_env ?o sample_fs) \<noteq> None" by code_simp
  then have r1: "updateAction sample_env ?o sample_fs = Completed ?fs1"
    by (auto simp: completed_fs_Some)
  have "completed_fs (updateAction sample_env_later ?o ?fs1) \<noteq> None" by code_simp
  then obtain fs2 where r2: "updateAction sample_env_later ?o ?fs1 = Completed fs2"
    by (auto simp: completed_fs_Some)
  have s: "dirname sample_env_later = dirname sample_env" "cwd sample_env_later = cwd sample_env"
    by (simp_all add: sample_env_later_def)
  have v: "getPackageVersion (json_parse sample_env_later) (dirname sample_env_later) ?fs1
      = getPackageVersion (json_parse sample_env) (dirname sample_env) sample_fs"
    by code_simp
  have b1: "built_manifest sample_env sample_fs = Inr updated_manifest" by code_simp
  have b2: "built_manifest sample_env_later ?fs1 = Inr updated_again_manifest" by code_simp
  have d: "yaml_dump sample_env updated_manifest = Some updated_manifest_text"
    "updated_manifest_text \<noteq> []"
    "yaml_load sample_env_later updated_manifest_text = Some updated_manifest"
    by code_simp+
  then have rt: "\<forall>m doc. built_manifest sample_env sample_fs = Inr m \<longrightarrow>
      yaml_dump sample_env m = Some doc \<longrightarrow> doc \<noteq> [] \<and> yaml_load sample_env_later doc = Some m"
    by (simp add: b1)
  have c: "getPackageVersion (json_parse sample_env) (dirname sample_env) sample_fs = JStr ''1.2.0''"
    "getPackageRoot (dirname sample_env) = [''pkg'']"
    "now_updated sample_env = ''2026-02-01T00:00:00.000Z''"
    "now_updated sample_env_later = ''2026-03-01T00:00:00.000Z''"
    by code_simp+
  from update_twice [OF r1 r2 s v rt] b1 b2 show ?thesis
    unfolding c by auto
qed

text \<open>C4 as stated fails: in the sample project the first run records the previous
  version 1.0.0 and the second run, from the same package, records 1.2.0, so the two
  manifests differ in \<^verbatim>\<open>previous_version\<close> as well as in \<^verbatim>\<open>updated_at\<close>.\<close>

theorem update_twice_counterexample:
  "read_after (updateAction sample_env \<lparr>force = False, skipDeps = False\<rparr> sample_fs)
     [''proj'', ''.aios-core'', ''install-manifest.yaml''] = Some (Inr updated_manifest_text) \<and>
   read_after (updateAction sample_env_later \<lparr>force = False, skipDeps = False\<rparr>
       (the (completed_fs (updateAction sample_env \<lparr>force = False, skipDeps = False\<rparr> sample_fs))))
     [''proj'', ''.aios-core'', ''install-manifest.yaml''] = Some (Inr updated_again_manifest_text) \<and>
   yaml_load sample_env updated_manifest_text = Some updated_manifest \<and>
   yaml_load sample_env updated_again_manifest_text = Some updated_again_manifest \<and>
   get_prop updated_manifest ''previous_version'' = Some (JStr ''1.0.0'') \<and>
   get_prop updated_again_manifest ''previous_version'' = Some (JStr ''1.2.0'')"
  by code_simp

section \<open>Install: when it stops (C5)\<close>

text \<open>
  Claim C5, as amended.  \<^verbatim>\<open>install\<close> without \<^verbatim>\<open>--force\<close> in a directory that has
  \<^verbatim>\<open>.aios-core\<close> stops with \<^verbatim>\<open>process.exit(1)\<close> and the tree as it was; so it
  does from the package root and from its parent; from anywhere else inside the
  package the exit status is 1 as well (the copy refuses to copy the package into
  itself).  Otherwise no \<^verbatim>\<open>process.exit\<close> is reached: the run ends with status 0,
  or an exception of one of its steps leaves it, which \<^verbatim>\<open>run\<close> turns into status 1.
\<close>

theorem install_exit:
  "(existsSync fs (cwd env @ [''.aios-core'']) \<and> \<not> force opts \<longrightarrow>
      installAction env opts fs = Exited 1 fs) \<and>
   (cwd env = getPackageRoot (dirname env) \<or> cwd env = butlast (getPackageRoot (dirname env)) \<longrightarrow>
      installAction env opts fs = Exited 1 fs) \<and>
   (prefix (getPackageRoot (dirname env)) (cwd env) \<longrightarrow>
      exit_status (installAction env opts fs) = 1) \<and>
   (\<not> (existsSync fs (cwd env @ [''.aios-core'']) \<and> \<not> force opts) \<and>
    cwd env \<noteq> getPackageRoot (dirname env) \<and> cwd env \<noteq> butlast (getPackageRoot (dirname env)) \<longrightarrow>
      (case installAction env opts fs of
         Completed fs' \<Rightarrow> exit_status (installAction env opts fs) = 0
       | Exited n fs' \<Rightarrow> False
       | Threw e \<Rightarrow> exit_status (installAction env opts fs) = 1))"
proof (intro conjI impI)
  assume "existsSync fs (cwd env @ [''.aios-core'']) \<and> \<not> force opts"
  then show "installAction env opts fs = Exited 1 fs"
    by (simp add: installAction_def)
next
  assume "cwd env = getPackageRoot (dirname env) \<or> cwd env = butlast (getPackageRoot (dirname env))"
  then show "installAction env opts fs = Exited 1 fs"
    unfolding installAction_def Let_def by simp
next
  let ?P = "getPackageRoot (dirname env)"
  let ?T = "cwd env @ [''.aios-core'']"
  assume p: "prefix ?P (cwd env)"
  then have pT: "prefix ?P ?T" by simp
  have ne: "?P \<noteq> ?T"
  proof
    assume "?P = ?T"
    with p have "prefix ?T (cwd env)" by simp
    then have "length ?T \<le> length (cwd env)" by (rule prefix_length_le)
    then show False by simp
  qed
  have flt: "install_filter ?P ?P"
    using path_relative_append [of ?P "[]"] by (simp add: install_filter_def)
  have "copy fs ?P ?T (install_filter ?P) ow \<noteq> Inr fs'" for ow fs'
  proof
    assume c: "copy fs ?P ?T (install_filter ?P) ow = Inr fs'"
    then obtain s where s: "lookup fs ?P = Some s"
      by (auto simp: copy_def split: option.splits)
    show False
    proof (cases s)
      case Dir
      with c s pT ne show False by (simp add: copy_def split: if_splits)
    next
      case (File x)
      have "\<exists>q\<in>set (prefixes (cwd env)). case lookup fs q of Some (File x) \<Rightarrow> True | _ \<Rightarrow> False"
        using s File p by (intro bexI [of _ ?P]) simp_all
      then have "ensureDir fs (butlast ?T) = Inl (case lookup fs (cwd env) of Some (File x) \<Rightarrow> EEXIST | _ \<Rightarrow> ENOTDIR)"
        by (simp add: ensureDir_def list_ex_iff)
      with c s File ne flt show False
        by (auto simp: copy_def Let_def split: if_splits sum.splits)
    qed
  qed
  then show "exit_status (installAction env opts fs) = 1"
    by (auto simp: installAction_def Let_def and_then_def split: sum.splits)
next
  assume "\<not> (existsSync fs (cwd env @ [''.aios-core'']) \<and> \<not> force opts) \<and>
    cwd env \<noteq> getPackageRoot (dirname env) \<and> cwd env \<noteq> butlast (getPackageRoot (dirname env))"
  then show "case installAction env opts fs of
         Completed fs' \<Rightarrow> exit_status (installAction env opts fs) = 0
       | Exited n fs' \<Rightarrow> False
       | Threw e \<Rightarrow> exit_status (installAction env opts fs) = 1"
    by (auto simp: installAction_def Let_def split: sum.splits)
qed

text \<open>Four runs of \<^verbatim>\<open>install\<close> without flags: in the sample project, which has
  \<^verbatim>\<open>.aios-core\<close>; from the package root; from \<^verbatim>\<open>cli\<close> inside the package; and in
  the fresh project, where it ends with status 0.\<close>

theorem install_exit_witness:
  "existsSync sample_fs [''proj'', ''.aios-core''] \<and>
   installAction sample_install_env \<lparr>force = False, skipDeps = False\<rparr> sample_fs
     = Exited 1 sample_fs \<and>
   installAction (sample_install_env\<lparr>cwd := [''pkg'']\<rparr>) \<lparr>force = False, skipDeps = False\<rparr>
     sample_fs_fresh = Exited 1 sample_fs_fresh \<and>
   exit_status (installAction (sample_install_env\<lparr>cwd := [''pkg'', ''cli'']\<rparr>)
     \<lparr>force = False, skipDeps = False\<rparr> sample_fs_fresh) = 1 \<and>
   exit_status (installAction sample_install_env \<lparr>force = False, skipDeps = False\<rparr>
     sample_fs_fresh) = 0"
proof -
  let ?o = "\<lparr>force = False, skipDeps = False\<rparr>"
  have e: "existsSync sample_fs (cwd sample_install_env @ [''.aios-core''])" by code_simp
  have a: "installAction sample_install_env ?o sample_fs = Exited 1 sample_fs"
    using install_exit [of sample_fs sample_install_env ?o] e by simp
  have "cwd (sample_install_env\<lparr>cwd := [''pkg'']\<rparr>)
      = getPackageRoot (dirname (sample_install_env\<lparr>cwd := [''pkg'']\<rparr>))"
    by code_simp
  then have b: "installAction (sample_install_env\<lparr>cwd := [''pkg'']\<rparr>) ?o sample_fs_fresh
      = Exited 1 sample_fs_fresh"
    using install_exit [of sample_fs_fresh "sample_install_env\<lparr>cwd := [''pkg'']\<rparr>" ?o] by blast
  have "prefix (getPackageRoot (dirname (sample_install_env\<lparr>cwd := [''pkg'', ''cli'']\<rparr>)))
      (cwd (sample_install_env\<lparr>cwd := [''pkg'', ''cli'']\<rparr>))"
    by code_simp
  then have c: "exit_status (installAction (sample_install_env\<lparr>cwd := [''pkg'', ''cli'']\<rparr>) ?o
      sample_fs_fresh) = 1"
    using install_exit [of sample_fs_fresh "sample_install_env\<lparr>cwd := [''pkg'', ''cli'']\<rparr>" ?o]
    by blast
  have "completed_fs (installAction sample_install_env ?o sample_fs_fresh) \<noteq> None" by code_simp
  then obtain fs' where "installAction sample_install_env ?o sample_fs_fresh = Completed fs'"
    by (auto simp: completed_fs_Some)
  then have d: "exit_status (installAction sample_install_env ?o sample_fs_fresh) = 0" by simp
  from e a b c d show ?thesis by (simp add: sample_install_env_def sample_env_def)
qed

text \<open>C5 as stated fails: a fresh project outside the package whose \<^verbatim>\<open>.claude\<close> is a
  regular file.  Neither check stops the run, the copy of \<^verbatim>\<open>claude-config\<close> over the
  file raises, and the status is 1.\<close>

theorem install_exit_counterexample:
  "\<not> existsSync sample_fs_claude_file [''proj'', ''.aios-core''] \<and>
   getPackageRoot (dirname sample_install_env) = [''pkg''] \<and>
   cwd sample_install_env = [''proj''] \<and>
   installAction sample_install_env \<lparr>force = False, skipDeps = False\<rparr> sample_fs_claude_file
     = Threw CopyKindMismatch \<and>
   exit_status (installAction sample_install_env \<lparr>force = False, skipDeps = False\<rparr>
     sample_fs_claude_file) = 1"
  by code_simp

section \<open>Sync: when it stops (C6)\<close>

text \<open>
  Claim C6, as amended.  Without \<^verbatim>\<open>.claude\<close> or without \<^verbatim>\<open>.aios-core\<close> in the
  working directory, \<^verbatim>\<open>sync\<close> stops with \<^verbatim>\<open>process.exit(1)\<close> before it has written
  anything.  With both there, no \<^verbatim>\<open>process.exit\<close> is reached: the run ends with
  status 0, or an exception of one of its steps leaves it (status 1).
\<close>

theorem sync_exit:
  "(\<not> existsSync fs (cwd env @ [''.claude'']) \<or> \<not> existsSync fs (cwd env @ [''.aios-core'']) \<longrightarrow>
      syncAction env fs = Exited 1 fs) \<and>
   (existsSync fs (cwd env @ [''.claude'']) \<and> existsSync fs (cwd env @ [''.aios-core'']) \<longrightarrow>
      (case syncAction env fs of
         Completed fs' \<Rightarrow> exit_status (syncAction env fs) = 0
       | Exited n fs' \<Rightarrow> False
       | Threw e \<Rightarrow> exit_status (syncAction env fs) = 1))"
  by (auto simp: syncAction_def Let_def split: sum.splits)

text \<open>The fresh project has no \<^verbatim>\<open>.claude\<close>; the sample project has both
  directories.\<close>

theorem sync_exit_witness:
  "\<not> existsSync sample_fs_fresh [''proj'', ''.claude''] \<and>
   syncAction sample_env sample_fs_fresh = Exited 1 sample_fs_fresh \<and>
   existsSync sample_fs [''proj'', ''.claude''] \<and>
   existsSync sample_fs [''proj'', ''.aios-core''] \<and>
   exit_status (syncAction sample_env sample_fs) = 0"
proof -
  have c: "cwd sample_env = [''proj'']" by (simp add: sample_env_def)
  have n: "\<not> existsSync sample_fs_fresh [''proj'', ''.claude'']" by code_simp
  have a: "syncAction sample_env sample_fs_fresh = Exited 1 sample_fs_fresh"
    using sync_exit [of sample_fs_fresh sample_env] n c by simp
  have e: "existsSync sample_fs [''proj'', ''.claude'']" "existsSync sample_fs [''proj'', ''.aios-core'']"
    by code_simp+
  have "completed_fs (syncAction sample_env sample_fs) \<noteq> None" by code_simp
  then obtain fs' where "syncAction sample_env sample_fs = Completed fs'"
    by (auto simp: completed_fs_Some)
  then have "exit_status (syncAction sample_env sample_fs) = 0" by simp
  with n a e show ?thesis by simp
qed

text \<open>C6 as stated fails: both directories are there and
  \<^verbatim>\<open>.aios-core/claude-config\<close> is a regular file, so \<^verbatim>\<open>ensureDir\<close> raises.\<close>

theorem sync_exit_counterexample:
  "existsSync sample_fs_config_file [''proj'', ''.claude''] \<and>
   isDirectory sample_fs_config_file [''proj'', ''.claude''] \<and>
   existsSync sample_fs_config_file [''proj'', ''.aios-core''] \<and>
   isDirectory sample_fs_config_file [''proj'', ''.aios-core''] \<and>
   syncAction sample_env sample_fs_config_file = Threw EEXIST \<and>
   exit_status (syncAction sample_env sample_fs_config_file) = 1"
  by code_simp

section \<open>Update: CLAUDE.md (C7)\<close>

text \<open>
  Claim C7 (the code departs from it).  The test of line 166 is
  \<^verbatim>\<open>!claudeMdBackup || claudeMdBackup === templateContent || options.force\<close>, and an
  empty string is falsy: a local \<^verbatim>\<open>CLAUDE.md\<close> that exists and is empty is overwritten
  by the template, with or without \<^verbatim>\<open>--force\<close> and whatever the template holds.
\<close>

theorem update_overwrites_empty_claude_md:
  assumes "updateAction env opts fs0 = Completed fs'"
    and "readFileSync fs0 (cwd env @ [''.claude'', ''CLAUDE.md'']) = Inr []"
    and "existsSync fs0 (getPackageRoot (dirname env) @ [''claude-config''])"
    and "readFileSync fs0 (getPackageRoot (dirname env) @ [''claude-config'', ''CLAUDE.md''])
           = Inr template"
    and "getPackageRoot (dirname env) \<parallel> cwd env @ [''.aios-core'']"
    and "getPackageRoot (dirname env) \<parallel> cwd env @ [''.claude'']"
  shows "readFileSync fs' (cwd env @ [''.claude'', ''CLAUDE.md'']) = Inr template"
proof -
  from update_claude_md_outcome [OF assms(1,3,4,5,6)] obtain b where
    b: "read_backup fs0 (cwd env @ [''.claude'', ''CLAUDE.md'']) = Inr b" and
    l: "lookup fs' (cwd env @ [''.claude'', ''CLAUDE.md'']) =
       (if \<not> truthy_backup b \<or> b = Some template \<or> force opts then Some (File template)
        else lookup fs0 (cwd env @ [''.claude'', ''CLAUDE.md'']))"
    by blast
  have "existsSync fs0 (cwd env @ [''.claude'', ''CLAUDE.md''])"
    using assms(2) by (simp add: readFileSync_Inr existsSync_lookup)
  with assms(2) b have "b = Some []"
    by (simp add: read_backup_def and_then_def)
  with l show ?thesis by (simp add: readFileSync_Inr)
qed

text \<open>The sample project with an empty \<^verbatim>\<open>CLAUDE.md\<close>, updated without \<^verbatim>\<open>--force\<close>:
  the local copy exists, differs from the template, and is overwritten.\<close>

theorem update_overwrites_empty_claude_md_witness:
  "readFileSync sample_fs_empty_claude_md [''proj'', ''.claude'', ''CLAUDE.md''] = Inr [] \<and>
   readFileSync sample_fs_empty_claude_md [''pkg'', ''claude-config'', ''CLAUDE.md''] = Inr ''template'' \<and>
   \<not> force \<lparr>force = False, skipDeps = False\<rparr> \<and>
   read_after (updateAction sample_env \<lparr>force = False, skipDeps = False\<rparr> sample_fs_empty_claude_md)
     [''proj'', ''.claude'', ''CLAUDE.md''] = Some (Inr ''template'')"
proof -
  let ?r = "updateAction sample_env \<lparr>force = False, skipDeps = False\<rparr> sample_fs_empty_claude_md"
  have "completed_fs ?r \<noteq> None" by code_simp
  then obtain fs' where r: "?r = Completed fs'"
    by (auto simp: completed_fs_Some)
  have P: "getPackageRoot (dirname sample_env) = [''pkg'']" by code_simp
  have c: "cwd sample_env = [''proj'']" by (simp add: sample_env_def)
  have h: "readFileSync sample_fs_empty_claude_md ([''proj''] @ [''.claude'', ''CLAUDE.md'']) = Inr []"
    "existsSync sample_fs_empty_claude_md ([''pkg''] @ [''claude-config''])"
    "readFileSync sample_fs_empty_claude_md ([''pkg''] @ [''claude-config'', ''CLAUDE.md''])
       = Inr ''template''"
    by code_simp+
  have p: "[''pkg''] \<parallel> [''proj''] @ [''.aios-core'']" "[''pkg''] \<parallel> [''proj''] @ [''.claude'']"
    by (simp_all add: parallel_def)
  have "readFileSync fs' ([''proj''] @ [''.claude'', ''CLAUDE.md'']) = Inr ''template''"
    using update_overwrites_empty_claude_md [OF r, of "''template''"] h p unfolding P c by simp
  with r h show ?thesis by (simp add: read_after_Completed)
qed

section \<open>Sync: the local-only settings (C8)\<close>

text \<open>
  Claim C8, as amended.  When \<^verbatim>\<open>sync\<close> has run to its end, there is no
  \<^verbatim>\<open>settings.local.json\<close> at the top of \<^verbatim>\<open>.aios-core/claude-config\<close> (step 5 removes
  it), and no path with a segment of \<^verbatim>\<open>NEVER_SYNC\<close> below the copy of any item that is a
  directory of \<^verbatim>\<open>.claude\<close> (the destination is removed first and the filter of the copy
  refuses such paths).  A part of \<^verbatim>\<open>claude-config\<close> that the run does not copy is not
  looked at.
\<close>

theorem sync_excludes_local_settings:
  assumes "syncAction env fs0 = Completed fs'"
  shows "\<not> existsSync fs' (cwd env @ [''.aios-core'', ''claude-config'', ''settings.local.json'']) \<and>
    (\<forall>item r s. item \<in> set SYNC_ITEMS \<and> isDirectory fs0 (cwd env @ [''.claude'', item]) \<and>
        s \<in> set r \<and> s \<in> set NEVER_SYNC \<longrightarrow>
        \<not> existsSync fs' (cwd env @ ''.aios-core'' # ''claude-config'' # item # r))"
proof (intro conjI allI impI)
  let ?cd = "cwd env @ [''.claude'']"
  let ?ccd = "cwd env @ [''.aios-core'', ''claude-config'']"
  from syncAction_Completed [OF assms] obtain f1 f2 where
    e: "ensureDir fs0 ?ccd = Inr f1" and
    s: "sync_items f1 ?cd ?ccd SYNC_ITEMS = Inr f2" and
    fs': "fs' = remove_never_sync f2 ?ccd NEVER_SYNC"
    by blast
  have "lookup fs' (?ccd @ [''settings.local.json'']) = None"
    unfolding fs' by (rule remove_never_sync_removed) (simp add: NEVER_SYNC_def)
  then show "\<not> existsSync fs' (cwd env @ [''.aios-core'', ''claude-config'', ''settings.local.json''])"
    by (simp add: existsSync_lookup)
  fix item r s
  assume a: "item \<in> set SYNC_ITEMS \<and> isDirectory fs0 (cwd env @ [''.claude'', item]) \<and>
        s \<in> set r \<and> s \<in> set NEVER_SYNC"
  then have "isDirectory f1 (?cd @ [item])"
    using lookup_ensureDir [OF e, of "?cd @ [item]"]
    by (auto simp: isDirectory_def split: option.splits node.splits if_splits)
  moreover have "?cd \<parallel> ?ccd" by (simp add: parallel_def)
  ultimately have "lookup f2 (?ccd @ item # r) = None"
    using sync_items_never_sync [OF s] a by blast
  then have "lookup fs' (?ccd @ item # r) = None"
    unfolding fs' by (rule remove_never_sync_None)
  then show "\<not> existsSync fs' (cwd env @ ''.aios-core'' # ''claude-config'' # item # r)"
    by (simp add: existsSync_lookup)
qed

text \<open>In the hub, \<^verbatim>\<open>commands\<close> is copied without its \<^verbatim>\<open>settings.local.json\<close>, and the
  stale file at the top of \<^verbatim>\<open>claude-config\<close> is removed.\<close>

theorem sync_excludes_local_settings_witness:
  "isDirectory sample_fs_hub [''proj'', ''.claude'', ''commands''] \<and>
   existsSync sample_fs_hub [''proj'', ''.claude'', ''commands'', ''settings.local.json''] \<and>
   existsSync sample_fs_hub [''proj'', ''.aios-core'', ''claude-config'', ''settings.local.json''] \<and>
   read_after (syncAction sample_env sample_fs_hub)
     [''proj'', ''.aios-core'', ''claude-config'', ''settings.local.json''] = Some (Inl ENOENT) \<and>
   read_after (syncAction sample_env sample_fs_hub)
     [''proj'', ''.aios-core'', ''claude-config'', ''commands'', ''settings.local.json'']
     = Some (Inl ENOENT) \<and>
   read_after (syncAction sample_env sample_fs_hub)
     [''proj'', ''.aios-core'', ''claude-config'', ''commands'', ''old.md'']
     = Some (Inr ''old command'')"
proof -
  let ?r = "syncAction sample_env sample_fs_hub"
  have "completed_fs ?r \<noteq> None" by code_simp
  then obtain fs' where r: "?r = Completed fs'"
    by (auto simp: completed_fs_Some)
  have c: "cwd sample_env = [''proj'']" by (simp add: sample_env_def)
  have h: "isDirectory sample_fs_hub [''proj'', ''.claude'', ''commands'']"
    "existsSync sample_fs_hub [''proj'', ''.claude'', ''commands'', ''settings.local.json'']"
    "existsSync sample_fs_hub [''proj'', ''.aios-core'', ''claude-config'', ''settings.local.json'']"
    by code_simp+
  have m: "''commands'' \<in> set SYNC_ITEMS" "''settings.local.json'' \<in> set NEVER_SYNC"
    by code_simp+
  from sync_excludes_local_settings [OF r] c
  have t: "\<not> existsSync fs' [''proj'', ''.aios-core'', ''claude-config'', ''settings.local.json'']"
    and n: "\<forall>item r s. item \<in> set SYNC_ITEMS \<and> isDirectory sample_fs_hub [''proj'', ''.claude'', item] \<and>
        s \<in> set r \<and> s \<in> set NEVER_SYNC \<longrightarrow>
        \<not> existsSync fs' (''proj'' # ''.aios-core'' # ''claude-config'' # item # r)"
    by simp_all
  from n h(1) m have
    "\<not> existsSync fs' [''proj'', ''.aios-core'', ''claude-config'', ''commands'', ''settings.local.json'']"
    by (elim allE [of _ "''commands''"] allE [of _ "[''settings.local.json'']"]
        allE [of _ "''settings.local.json''"]) simp
  with t r have
    "read_after ?r [''proj'', ''.aios-core'', ''claude-config'', ''settings.local.json'']
       = Some (Inl ENOENT)"
    "read_after ?r [''proj'', ''.aios-core'', ''claude-config'', ''commands'', ''settings.local.json'']
       = Some (Inl ENOENT)"
    by (simp_all add: read_after_Completed readFileSync_missing)
  moreover have "read_after ?r [''proj'', ''.aios-core'', ''claude-config'', ''commands'', ''old.md'']
     = Some (Inr ''old command'')"
    by code_simp
  ultimately show ?thesis using h by simp
qed

text \<open>C8 as stated fails: \<^verbatim>\<open>.claude\<close> has no \<^verbatim>\<open>hooks\<close>, so the item is skipped and
  the \<^verbatim>\<open>settings.local.json\<close> below \<^verbatim>\<open>claude-config/hooks\<close> is still in the
  distributable tree when \<^verbatim>\<open>sync\<close> has completed.\<close>

theorem sync_excludes_local_settings_counterexample:
  "existsSync sample_fs_stale_hooks
     [''proj'', ''.aios-core'', ''claude-config'', ''hooks'', ''settings.local.json''] \<and>
   \<not> existsSync sample_fs_stale_hooks [''proj'', ''.claude'', ''hooks''] \<and>
   read_after (syncAction sample_env sample_fs_stale_hooks)
     [''proj'', ''.aios-core'', ''claude-config'', ''hooks'', ''settings.local.json'']
     = Some (Inr ''stale'')"
  by code_simp

section \<open>The version reader of the entry point (C9)\<close>

text \<open>
  Claim C9 (the code departs from it).  The readers of the update and install
  commands fall back to \<^verbatim>\<open>'0.0.0'\<close> when \<^verbatim>\<open>package.json\<close> parses to an object
  without a \<^verbatim>\<open>version\<close> field; the reader of the CLI entry point, on the same file,
  assigns \<^verbatim>\<open>packageJson.version\<close> as it is and ends with \<^verbatim>\<open>undefined\<close>.
\<close>

theorem packageVersion_without_version_field:
  assumes "readFileSync fs (pkg @ [''package.json'']) = Inr doc"
    and "parse doc = Some (JObj kvs)" and "map_of kvs ''version'' = None"
  shows "packageVersion parse (pkg @ [''cli'']) fs = JUndefined \<and>
         getPackageVersion parse (pkg @ [''cli'', ''commands'', ''update'']) fs = JStr ''0.0.0''"
proof -
  have "butlast (pkg @ [''cli'']) = pkg" by simp
  moreover have "getPackageRoot (pkg @ [''cli'', ''commands'', ''update'']) = pkg"
    by (simp add: getPackageRoot_def butlast_append)
  ultimately show ?thesis
    using assms by (simp add: packageVersion_def getPackageVersion_def js_or_def)
qed

text \<open>The sample package with \<^verbatim>\<open>{}\<close> as its \<^verbatim>\<open>package.json\<close>.\<close>

theorem packageVersion_without_version_field_witness:
  "readFileSync sample_fs_empty_package_json [''pkg'', ''package.json''] = Inr ''{}'' \<and>
   sample_json_parse ''{}'' = Some (JObj []) \<and>
   packageVersion sample_json_parse [''pkg'', ''cli''] sample_fs_empty_package_json = JUndefined \<and>
   getPackageVersion sample_json_parse [''pkg'', ''cli'', ''commands'', ''update'']
     sample_fs_empty_package_json = JStr ''0.0.0''"
proof -
  have r: "readFileSync sample_fs_empty_package_json ([''pkg''] @ [''package.json'']) = Inr ''{}''"
    by code_simp
  have p: "sample_json_parse ''{}'' = Some (JObj [])" by code_simp
  from packageVersion_without_version_field [where pkg = "[''pkg'']" and parse = sample_json_parse, OF r p]
    r p show ?thesis by simp
qed

section \<open>Update: the manifest on disk (C10)\<close>

text \<open>
  Claim C10.  When \<^verbatim>\<open>update\<close> runs to its end, \<^verbatim>\<open>install-manifest.yaml\<close> holds the
  serialisation of the manifest object that step 7 builds: the copy of the old manifest
  that step 6 wrote back (the file is a member of \<^verbatim>\<open>LOCAL_CONFIGS\<close>) is overwritten by
  the \<^verbatim>\<open>writeFileSync\<close> of step 7.
\<close>

theorem update_writes_built_manifest:
  assumes "updateAction env opts fs0 = Completed fs'"
  shows "\<exists>m doc. built_manifest env fs0 = Inr m \<and> yaml_dump env m = Some doc \<and>
     readFileSync fs' (cwd env @ [''.aios-core'', ''install-manifest.yaml'']) = Inr doc"
  using assms by (rule update_manifest_written)

text \<open>In the sample project the old manifest (version 1.0.0) is in the snapshot, and
  the file ends as the manifest of the update to 1.2.0.\<close>

theorem update_writes_built_manifest_witness:
  "built_manifest sample_env sample_fs = Inr updated_manifest \<and>
   yaml_dump sample_env updated_manifest = Some updated_manifest_text \<and>
   read_after (updateAction sample_env \<lparr>force = False, skipDeps = False\<rparr> sample_fs)
     [''proj'', ''.aios-core'', ''install-manifest.yaml''] = Some (Inr updated_manifest_text)"
proof -
  let ?r = "updateAction sample_env \<lparr>force = False, skipDeps = False\<rparr> sample_fs"
  have "completed_fs ?r \<noteq> None" by code_simp
  then obtain fs' where r: "?r = Completed fs'"
    by (auto simp: completed_fs_Some)
  have b: "built_manifest sample_env sample_fs = Inr updated_manifest" by code_simp
  have d: "yaml_dump sample_env updated_manifest = Some updated_manifest_text" by code_simp
  have c: "cwd sample_env = [''proj'']" by (simp add: sample_env_def)
  from update_writes_built_manifest [OF r] b d c
  have "readFileSync fs' [''proj'', ''.aios-core'', ''install-manifest.yaml''] = Inr updated_manifest_text"
    by auto
  with r b d show ?thesis by (simp add: read_after_Completed)
qed

end
